theory Spec2Isabelle
  imports Complex_Main
begin

section \<open>Numeric model\<close>

text \<open>
  The notebooks compute with Python floats and numpy \<open>float64\<close> arrays. The embedding
  idealises them as \<^typ>\<open>real\<close>: \<open>np.log\<close> is \<^const>\<open>ln\<close>, \<open>np.exp\<close> is
  \<^const>\<open>exp\<close>, \<open>np.sqrt\<close> is \<^const>\<open>sqrt\<close>, \<open>x**n\<close> with an integer exponent is
  \<open>x ^ n\<close> and with a float exponent is \<open>x powr y\<close> (for a positive base). Rounding
  and NaN are outside the model, so every theorem below carries the sign conditions
  under which the real functions and the float functions describe the same computation
  (positive arguments of \<open>ln\<close>, \<open>sqrt\<close> and of the divisions by numpy scalars).

  \<open>scipy.stats.norm.cdf\<close> and \<open>np.random.randn\<close> are library code outside the
  repository: a function that calls one of them takes it as its first argument
  (\<open>Phi\<close>, \<open>randn\<close>).

  A division of two Python scalars raises \<open>ZeroDivisionError\<close> on a zero divisor; a
  division by a numpy scalar (anything that went through \<open>np.sqrt\<close>, \<open>np.exp\<close> or
  \<open>np.log\<close>) does not raise. An index outside a numpy array raises \<open>IndexError\<close>, and
  arrays of different lengths do not combine (\<open>ValueError\<close>). A power of Python floats
  whose result leaves the range of the floats raises \<open>OverflowError\<close>. These are
  branches of the model; the limits of the float range are branches of
  \<open>analytical_value_Call_Up_Out\<close>, the function whose errors a claim is about, and
  outside the model elsewhere.
\<close>

datatype py_error = ZeroDivisionError | OverflowError | IndexError | ValueError

definition ebind :: "py_error + 'a \<Rightarrow> ('a \<Rightarrow> py_error + 'b) \<Rightarrow> py_error + 'b" where
  "ebind m f = (case m of Inl e \<Rightarrow> Inl e | Inr v \<Rightarrow> f v)"

text \<open>A Python \<open>for x in xs: body\<close> over a state; an exception in the body ends the loop.\<close>

fun for_each :: "'i list \<Rightarrow> ('i \<Rightarrow> 's \<Rightarrow> py_error + 's) \<Rightarrow> 's \<Rightarrow> py_error + 's" where
  "for_each [] body s = Inr s"
| "for_each (x # xs) body s = ebind (body x s) (for_each xs body)"

subsection \<open>The range of the floats\<close>

text \<open>
  Under rounding to nearest, a result of magnitude \<open>2^1024 - 2^970\<close> or more has no
  finite \<open>float64\<close> value, and a result of magnitude \<open>2^-1075\<close> or less is the float
  \<open>0.0\<close>. Multiplication and division of Python floats do not raise for either (they
  give \<open>inf\<close> and \<open>0.0\<close>); a later division by the \<open>0.0\<close> raises. The model applies
  the two limits to the real value of an operation.
\<close>

definition float_overflow :: real where
  "float_overflow = 2 ^ 1024 - 2 ^ 970"

definition float_underflow :: real where
  "float_underflow = 1 / 2 ^ 1075"

definition overflows :: "real \<Rightarrow> bool" where
  "overflows x \<longleftrightarrow> float_overflow \<le> \<bar>x\<bar>"

definition rounds_to_zero :: "real \<Rightarrow> bool" where
  "rounds_to_zero x \<longleftrightarrow> \<bar>x\<bar> \<le> float_underflow"

text \<open>
  \<open>x**2\<close> for a Python float \<open>x\<close>: \<open>OverflowError\<close> when the square leaves the range; a
  square that underflows is \<open>0.0\<close>, without an exception.
\<close>

definition float_square :: "real \<Rightarrow> py_error + real" where
  "float_square x = (if overflows (x ^ 2) then Inl OverflowError else Inr (x ^ 2))"

text \<open>
  \<open>x**y\<close> for Python floats, \<open>x\<close> not negative, in the order of the interpreter's cases:
  \<open>y == 0\<close> gives \<open>1.0\<close>; an infinite operand (a quotient or product that overflowed)
  gives \<open>0.0\<close>, \<open>1.0\<close> or \<open>inf\<close> without an exception; \<open>0.0\<close> to a negative power raises
  \<open>ZeroDivisionError\<close>; a finite result outside the range raises \<open>OverflowError\<close>. (A
  negative \<open>x\<close> with a fractional \<open>y\<close> gives a complex number, outside the model.)
\<close>

definition float_pow :: "real \<Rightarrow> real \<Rightarrow> py_error + real" where
  "float_pow x y =
     (if y = 0 then Inr 1
      else if overflows x \<or> overflows y then Inr (x powr y)
      else if rounds_to_zero x then (if y < 0 then Inl ZeroDivisionError else Inr 0)
      else if overflows (x powr y) then Inl OverflowError
      else Inr (x powr y))"

type_synonym cdf = "real \<Rightarrow> real"

text \<open>
  A concrete distribution function (symmetric, strictly increasing, with values strictly
  between 0 and 1), used where a theorem is instantiated at a concrete input.
\<close>

definition sigmoid :: cdf where
  "sigmoid x = 1 / 2 + x / (2 * (1 + \<bar>x\<bar>))"

subsection \<open>numpy arrays\<close>

text \<open>
  A two-dimensional array is a list of rows. \<open>M[i,j]\<close> is \<open>mat_get\<close>, \<open>M[i,j] = v\<close> is
  \<open>mat_set\<close>, \<open>M[:,j]\<close> is \<open>get_col\<close> and \<open>M[:,j] = vs\<close> is \<open>set_col\<close>; \<open>np.zeros((m,n))\<close>
  is \<open>zeros m n\<close>. All indices in the sources are non-negative.
\<close>

type_synonym matrix = "real list list"

definition zeros :: "nat \<Rightarrow> nat \<Rightarrow> matrix" where
  "zeros m n = replicate m (replicate n 0)"

definition mat_get :: "matrix \<Rightarrow> nat \<Rightarrow> nat \<Rightarrow> py_error + real" where
  "mat_get M i j = (if i < length M \<and> j < length (M ! i) then Inr (M ! i ! j) else Inl IndexError)"

definition mat_set :: "matrix \<Rightarrow> nat \<Rightarrow> nat \<Rightarrow> real \<Rightarrow> py_error + matrix" where
  "mat_set M i j v =
     (if i < length M \<and> j < length (M ! i) then Inr (M[i := (M ! i)[j := v]]) else Inl IndexError)"

definition get_col :: "matrix \<Rightarrow> nat \<Rightarrow> py_error + real list" where
  "get_col M j =
     (if list_all (\<lambda>row. j < length row) M then Inr (map (\<lambda>row. row ! j) M) else Inl IndexError)"

definition set_col :: "matrix \<Rightarrow> nat \<Rightarrow> real list \<Rightarrow> py_error + matrix" where
  "set_col M j vs =
     (if \<not> list_all (\<lambda>row. j < length row) M then Inl IndexError
      else if length vs \<noteq> length M then Inl ValueError
      else Inr (map2 (\<lambda>row v. row[j := v]) M vs))"

text \<open>\<open>np.maximum(xs, ys)\<close>, the elementwise maximum of two arrays of one length.\<close>

definition np_maximum :: "real list \<Rightarrow> real list \<Rightarrow> py_error + real list" where
  "np_maximum xs ys =
     (if length xs \<noteq> length ys then Inl ValueError else Inr (map2 max xs ys))"

text \<open>\<open>np.cumprod\<close> along a row: the running products.\<close>

fun cumprod_from :: "real \<Rightarrow> real list \<Rightarrow> real list" where
  "cumprod_from a [] = []"
| "cumprod_from a (x # xs) = (a * x) # cumprod_from (a * x) xs"

definition cumprod :: "real list \<Rightarrow> real list" where
  "cumprod xs = cumprod_from 1 xs"

text \<open>\<open>np.mean\<close> of a one-dimensional array.\<close>

definition mean :: "real list \<Rightarrow> real" where
  "mean xs = sum_list xs / real (length xs)"

section \<open>Pricing-Vanilla-Options.ipynb\<close>

subsection \<open>vanillaBS\<close>

text \<open>
  \<^verbatim>\<open>
  def vanillaBS(S, K, T, sig, r = 0, call = True):
      d1 = ( np.log(S/K) + (r+sig**2/2)*T ) / (sig*np.sqrt(T))
      d2 = d1 - sig*np.sqrt(T)
      C = S*norm.cdf(d1) - np.exp(-r*T)*K*norm.cdf(d2)
      P = -S*norm.cdf(-d1) + np.exp(-r*T)*K*norm.cdf(-d2)
      return C if call else P
  \<close>
  \<open>S/K\<close> divides two Python scalars and raises when \<open>K\<close> is zero.
\<close>

definition vanillaBS :: "cdf \<Rightarrow> real \<Rightarrow> real \<Rightarrow> real \<Rightarrow> real \<Rightarrow> real \<Rightarrow> bool \<Rightarrow> py_error + real" where
  "vanillaBS Phi S K T sig r call =
     (if K = 0 then Inl ZeroDivisionError
      else
        let d1 = (ln (S / K) + (r + sig ^ 2 / 2) * T) / (sig * sqrt T);
            d2 = d1 - sig * sqrt T;
            C = S * Phi d1 - exp (- r * T) * K * Phi d2;
            P = - S * Phi (- d1) + exp (- r * T) * K * Phi (- d2)
        in Inr (if call then C else P))"

subsection \<open>vanillaTree\<close>

text \<open>
  \<^verbatim>\<open>
  def vanillaTree(S, K, T, N, sig, r, d, c=True):
      tree = np.zeros((N+1,N+1))
      dt = T/N
      u = np.exp(sig*np.sqrt(dt))
      d = 1/u
      p = (np.exp(r*dt)-d)/(u-d)
      for j in range(N+1):
          for i in range(j+1):
              tree[i,j] = S*u**(j-i)*d**i
      call = np.zeros((N+1,N+1))
      put  = np.zeros((N+1,N+1))
      call[:,N] = np.maximum(np.zeros(N+1),tree[:,N]-K)
      put[:,N] = np.maximum(np.zeros(N+1),-tree[:,N]+K)
      for j in range(N-1,-1,-1):
          for i in range(j+1):
              call[i,j] = np.exp(-r*dt)*(p*call[i,j+1] + (1-p)*call[i+1,j+1])
              put[i,j] = np.exp(-r*dt)*(p*put[i,j+1] + (1-p)*put[i+1,j+1])
      return call[0,0] if c else put[0,0]
  \<close>
  \<open>N\<close> is a step count, a \<^typ>\<open>nat\<close>; \<open>T/N\<close> divides two Python scalars and raises when
  \<open>N\<close> is zero. The assignment \<open>d = 1/u\<close> rebinds the parameter \<open>d\<close>, as the inner
  \<open>let\<close> does. \<open>range(N-1,-1,-1)\<close> is \<open>rev [0..<N]\<close>.
\<close>

definition vanillaTree :: "real \<Rightarrow> real \<Rightarrow> real \<Rightarrow> nat \<Rightarrow> real \<Rightarrow> real \<Rightarrow> real \<Rightarrow> bool \<Rightarrow> py_error + real" where
  "vanillaTree S K T N sig r d c =
     (let tree = zeros (N + 1) (N + 1) in
      if N = 0 then Inl ZeroDivisionError
      else
        let dt = T / real N;
            u = exp (sig * sqrt dt);
            d = 1 / u;
            p = (exp (r * dt) - d) / (u - d)
        in
        ebind (for_each [0..<N + 1] (\<lambda>j. for_each [0..<j + 1] (\<lambda>i tree.
                 mat_set tree i j (S * u ^ (j - i) * d ^ i))) tree) (\<lambda>tree.
        let call = zeros (N + 1) (N + 1);
            put = zeros (N + 1) (N + 1)
        in
        ebind (get_col tree N) (\<lambda>tree_N.
        ebind (np_maximum (replicate (N + 1) 0) (map (\<lambda>x. x - K) tree_N)) (\<lambda>call_N.
        ebind (set_col call N call_N) (\<lambda>call.
        ebind (np_maximum (replicate (N + 1) 0) (map (\<lambda>x. - x + K) tree_N)) (\<lambda>put_N.
        ebind (set_col put N put_N) (\<lambda>put.
        ebind (for_each (rev [0..<N]) (\<lambda>j. for_each [0..<j + 1] (\<lambda>i (call, put).
                 ebind (mat_get call i (j + 1)) (\<lambda>call_up.
                 ebind (mat_get call (i + 1) (j + 1)) (\<lambda>call_down.
                 ebind (mat_set call i j (exp (- r * dt) * (p * call_up + (1 - p) * call_down))) (\<lambda>call.
                 ebind (mat_get put i (j + 1)) (\<lambda>put_up.
                 ebind (mat_get put (i + 1) (j + 1)) (\<lambda>put_down.
                 ebind (mat_set put i j (exp (- r * dt) * (p * put_up + (1 - p) * put_down))) (\<lambda>put.
                 Inr (call, put))))))))) (call, put)) (\<lambda>(call, put).
        if c then mat_get call 0 0 else mat_get put 0 0))))))))"


subsection \<open>vanillaMC\<close>

text \<open>
  \<^verbatim>\<open>
  def vanillaMC(S, K, T, N, sig, r, c=True):
      np.random.seed(42); dt = 0.1
      W = np.random.randn(N,int(1/dt))*sig*np.sqrt(dt)
      path = np.cumprod(np.exp((r-(sig**2)/2.0)*dt+W),1)*S
      ST = path[:,-1]
      return np.exp(-r*T)*np.maximum(ST-K,0).mean() if c else np.exp(-r*T)*np.maximum(-ST+K,0).mean()
  \<close>
  \<open>randn n k\<close> stands for the entry \<open>[n,k]\<close> of the seeded \<open>np.random.randn(N, int(1/dt))\<close>,
  the draw of step \<open>k\<close> of path \<open>n\<close>. The time step is the literal \<open>0.1\<close> and the number of
  steps is \<open>int(1/dt)\<close>; neither reads \<open>T\<close>. The first two assignments are
  \<open>vanillaMC_path\<close>. With \<open>N = 0\<close> the mean of an empty array is NaN, outside the model.
\<close>

definition vanillaMC_dt :: real where
  "vanillaMC_dt = 1 / 10"

definition vanillaMC_steps :: nat where
  "vanillaMC_steps = nat \<lfloor>1 / vanillaMC_dt\<rfloor>"

definition vanillaMC_path :: "(nat \<Rightarrow> nat \<Rightarrow> real) \<Rightarrow> real \<Rightarrow> nat \<Rightarrow> real \<Rightarrow> real \<Rightarrow> matrix" where
  "vanillaMC_path randn S N sig r =
     (let dt = vanillaMC_dt;
          W = map (\<lambda>n. map (\<lambda>k. randn n k * sig * sqrt dt) [0..<vanillaMC_steps]) [0..<N];
          path = map (\<lambda>w. map (\<lambda>x. x * S) (cumprod (map (\<lambda>x. exp ((r - sig ^ 2 / 2) * dt + x)) w))) W
      in path)"

definition vanillaMC :: "(nat \<Rightarrow> nat \<Rightarrow> real) \<Rightarrow> real \<Rightarrow> real \<Rightarrow> real \<Rightarrow> nat \<Rightarrow> real \<Rightarrow> real \<Rightarrow> bool \<Rightarrow> real" where
  "vanillaMC randn S K T N sig r c =
     (let path = vanillaMC_path randn S N sig r;
          ST = map last path
      in if c then exp (- r * T) * mean (map (\<lambda>s. max (s - K) 0) ST)
         else exp (- r * T) * mean (map (\<lambda>s. max (- s + K) 0) ST))"

section \<open>The up-and-out call notebook\<close>

subsection \<open>Module-level variables\<close>

text \<open>
  \<^verbatim>\<open>
  T = 1; S = 100; K = S; L = 150; r = 0.08; sigma = 0.3; sigma2 = 0.25; rho = 0.2;
  t = 0; debt = 175; recovery = 0.25; V = 200;
  \<close>
  The cells of the notebook, and the body of a function that names a variable which is
  not one of its parameters, read these variables. \<open>sigma\<close> is the volatility of the
  share price (the simulation of \<open>paths\<close> uses it) and \<open>sigma2\<close> the volatility of the
  counterparty's firm value (the simulation of \<open>firm_path\<close> uses it).
\<close>

record globals =
  g_T :: real
  g_S :: real
  g_K :: real
  g_L :: real
  g_r :: real
  g_sigma :: real
  g_sigma2 :: real
  g_rho :: real
  g_t :: real
  g_debt :: real
  g_recovery :: real
  g_V :: real

definition notebook_globals :: globals where
  "notebook_globals =
     \<lparr>g_T = 1, g_S = 100, g_K = 100, g_L = 150, g_r = 8 / 100, g_sigma = 3 / 10,
      g_sigma2 = 25 / 100, g_rho = 2 / 10, g_t = 0, g_debt = 175, g_recovery = 25 / 100,
      g_V = 200\<rparr>"

subsection \<open>d1, d2, discounted_value\<close>

text \<open>
  \<^verbatim>\<open>
  def d1(S,K,r,sigma,tau):
      return (np.log(S/K)+(r+sigma**2/2)*(tau))/(sigma*np.sqrt(tau))
  def d2(S,K,r,sigma,tau):
      return d1(S,K,r,sigma,tau) - sigma*np.sqrt(tau)
  def discounted_value(S,K,r,T):
      return np.exp(-r*T)*np.maximum((S-K),0)
  \<close>
\<close>

definition d1 :: "real \<Rightarrow> real \<Rightarrow> real \<Rightarrow> real \<Rightarrow> real \<Rightarrow> py_error + real" where
  "d1 S K r sigma tau =
     (if K = 0 then Inl ZeroDivisionError
      else Inr ((ln (S / K) + (r + sigma ^ 2 / 2) * tau) / (sigma * sqrt tau)))"

definition d2 :: "real \<Rightarrow> real \<Rightarrow> real \<Rightarrow> real \<Rightarrow> real \<Rightarrow> py_error + real" where
  "d2 S K r sigma tau = ebind (d1 S K r sigma tau) (\<lambda>v. Inr (v - sigma * sqrt tau))"

definition discounted_value :: "real \<Rightarrow> real \<Rightarrow> real \<Rightarrow> real \<Rightarrow> real" where
  "discounted_value S K r T = exp (- r * T) * max (S - K) 0"

subsection \<open>analytical_value_Call_Up_Out\<close>

text \<open>
  \<^verbatim>\<open>
  def analytical_value_Call_Up_Out(S0,K,L,r,sigma,T):
      l = (r+sigma**2/2)/(sigma**2)
      x1 = np.log(S0/L)/(sigma*np.sqrt(T)) + l*sigma*np.sqrt(T)
      y1 = np.log(L/S0)/(sigma*np.sqrt(T)) + l*sigma*np.sqrt(T)
      y = np.log(L**2/(S0*K))/(sigma*np.sqrt(T)) + l*sigma*np.sqrt(T)
      lmbd = l; Hb=L

      return  S*stats.norm.cdf(d1(S,K,r,sigma,T)) - K*np.exp(-r*T)*stats.norm.cdf(d2(S,K,r,sigma,T)) - S0*stats.norm.cdf(x1) + \
      K*np.exp(-r*T)*stats.norm.cdf(x1 - sigma*np.sqrt(T)) + S0*(L/S0)**(2*l)*(stats.norm.cdf(-y) \
      - stats.norm.cdf(-y1)) - K*np.exp(-r*T)*(L/S0)**(2*l-2)*(stats.norm.cdf(-y+sigma*np.sqrt(T)) -stats.norm.cdf(-y1+ sigma*np.sqrt(T)))
  \<close>
  \<open>S\<close> is not a parameter: the first two terms of the returned sum read the module-level
  variable, \<open>g_S g\<close>. The function has no validation of its arguments. Its arguments are
  Python floats (the integers of the notebook behave as the floats of the same value).
  It raises \<open>OverflowError\<close> where \<open>sigma**2\<close>, \<open>L**2\<close> or one of the two powers of
  \<open>L/S0\<close> leaves the float range, and \<open>ZeroDivisionError\<close> where a divisor is \<open>0.0\<close>
  (\<open>sigma**2\<close>, \<open>L\<close>, \<open>S0\<close>, \<open>S0*K\<close>, the \<open>K\<close> in \<open>d1\<close>) or \<open>L/S0\<close> is \<open>0.0\<close> under a
  negative exponent; the sums, products and quotients of floats and the numpy functions
  do not raise.
\<close>

definition analytical_value_Call_Up_Out ::
    "cdf \<Rightarrow> globals \<Rightarrow> real \<Rightarrow> real \<Rightarrow> real \<Rightarrow> real \<Rightarrow> real \<Rightarrow> real \<Rightarrow> py_error + real" where
  "analytical_value_Call_Up_Out Phi g S0 K L r sigma T =
     ebind (float_square sigma) (\<lambda>sigma_sq.
     if rounds_to_zero sigma_sq then Inl ZeroDivisionError
     else
       let l = (r + sigma_sq / 2) / sigma_sq in
       if L = 0 then Inl ZeroDivisionError
       else
         let x1 = ln (S0 / L) / (sigma * sqrt T) + l * sigma * sqrt T in
         if S0 = 0 then Inl ZeroDivisionError
         else
           let y1 = ln (L / S0) / (sigma * sqrt T) + l * sigma * sqrt T in
           ebind (float_square L) (\<lambda>L_sq.
           if rounds_to_zero (S0 * K) then Inl ZeroDivisionError
           else
             let y = ln (L_sq / (S0 * K)) / (sigma * sqrt T) + l * sigma * sqrt T;
                 lmbd = l;
                 Hb = L
             in
             ebind (d1 (g_S g) K r sigma T) (\<lambda>d1_S.
             ebind (d2 (g_S g) K r sigma T) (\<lambda>d2_S.
             ebind (float_pow (L / S0) (2 * l)) (\<lambda>pow_2l.
             ebind (float_pow (L / S0) (2 * l - 2)) (\<lambda>pow_2l_2.
             Inr (g_S g * Phi d1_S - K * exp (- r * T) * Phi d2_S - S0 * Phi x1
                  + K * exp (- r * T) * Phi (x1 - sigma * sqrt T)
                  + S0 * pow_2l * (Phi (- y) - Phi (- y1))
                  - K * exp (- r * T) * pow_2l_2
                      * (Phi (- y + sigma * sqrt T) - Phi (- y1 + sigma * sqrt T)))))))))"

subsection \<open>The Monte Carlo cell of the up-and-out call\<close>

text \<open>
  \<^verbatim>\<open>
  dt = 1/10000; upOutCall = [None]*30; sig = [None]*30; c=0
  for i in range(1,31):
      W = np.random.randn(i*1000,int(1/dt))*sigma*np.sqrt(dt)
      path = np.cumprod(np.exp((r-(sigma**2)/2.0)*dt+W),1)*S
      path = np.hstack((S*np.ones((i*1000,1)),path))
      ST = path[:,-1]
      ST[np.max(path,axis=1)>L] = 0
      upOutCall_val = discounted_value(ST,K,r,T)
      upOutCall[c] = upOutCall_val.mean()
  \<close>
  One pass of the loop body, in three steps: the paths from the draws \<open>Z\<close> (one row of
  draws per path), the discounted payoff of each path, and their mean. Every row of
  \<open>path\<close> starts with \<open>S\<close>; on an array with no columns \<open>path[:,-1]\<close> raises. The
  standard error \<open>sig[c]\<close> is not modelled.
\<close>

definition upOutCall_path :: "globals \<Rightarrow> matrix \<Rightarrow> matrix" where
  "upOutCall_path g Z =
     (let dt = 1 / 10000;
          W = map (map (\<lambda>z. z * g_sigma g * sqrt dt)) Z;
          path = map (\<lambda>w. map (\<lambda>x. x * g_S g)
                   (cumprod (map (\<lambda>x. exp ((g_r g - g_sigma g ^ 2 / 2) * dt + x)) w))) W
      in map (\<lambda>row. g_S g * 1 # row) path)"

definition upOutCall_val :: "globals \<Rightarrow> matrix \<Rightarrow> py_error + real list" where
  "upOutCall_val g path =
     (if list_ex (\<lambda>row. row = []) path then Inl IndexError
      else
        let ST = map last path;
            ST = map2 (\<lambda>s row. if Max (set row) > g_L g then 0 else s) ST path
        in Inr (map (\<lambda>s. discounted_value s (g_K g) (g_r g) (g_T g)) ST))"

definition upOutCall_mean :: "globals \<Rightarrow> matrix \<Rightarrow> py_error + real" where
  "upOutCall_mean g Z =
     ebind (upOutCall_val g (upOutCall_path g Z)) (\<lambda>vals. Inr (mean vals))"

subsection \<open>The vanilla call value \<open>C\<close>\<close>

text \<open>
  \<^verbatim>\<open>
  C = S*stats.norm.cdf(d1(S,K,r,sigma,T)) - K*np.exp(-r*T)*stats.norm.cdf(d2(S,K,r,sigma,T))
  \<close>
\<close>

definition C :: "cdf \<Rightarrow> globals \<Rightarrow> py_error + real" where
  "C Phi g =
     ebind (d1 (g_S g) (g_K g) (g_r g) (g_sigma g) (g_T g)) (\<lambda>d1_S.
     ebind (d2 (g_S g) (g_K g) (g_r g) (g_sigma g) (g_T g)) (\<lambda>d2_S.
     Inr (g_S g * Phi d1_S - g_K g * exp (- g_r g * g_T g) * Phi d2_S)))"

subsection \<open>The credit valuation adjustment cell\<close>

text \<open>
  \<^verbatim>\<open>
  final_values = paths[:,-1] - K
  max_values = np.max(paths,axis=1)
  final_values[final_values < 0] = 0
  final_values[max_values >= L] = 0

  term_firm_val = firm_path[:,-1]
  amount_lost = np.exp(-r*T)*(1-recovery)*(term_firm_val < debt)*final_values
  cva_est = np.mean(amount_lost)
  DFValue = np.mean(final_values*np.exp(-r*T))

  default_prob = stats.norm.cdf(-d2(V,debt,r,sigma,T))
  uncorr_cva = (1-recovery)*default_prob*C
  \<close>
  \<open>paths\<close> and \<open>firm_path\<close> are the simulated share prices and firm values, one row per
  path, filled by the simulation loop of the cell (with \<open>sigma\<close> for \<open>paths\<close> and \<open>sigma2\<close>
  for \<open>firm_path\<close>); here they are inputs. Every row starts with the initial value; on
  an array with no columns \<open>paths[:,-1]\<close> raises. The product of a boolean array and a
  float array counts \<open>True\<close> as 1 and \<open>False\<close> as 0. The functions of the lines after
  \<open>term_firm_val\<close> take the arrays \<open>term_firm_val\<close> (as \<open>firm_vals\<close>) and \<open>final_values\<close> (as
  \<open>final_vals\<close>) that the lines before them computed, one entry per path in each. The
  standard error \<open>cva_std\<close> is not modelled.
\<close>

definition final_values :: "globals \<Rightarrow> matrix \<Rightarrow> py_error + real list" where
  "final_values g paths =
     (if list_ex (\<lambda>row. row = []) paths then Inl IndexError
      else
        let final_values = map (\<lambda>row. last row - g_K g) paths;
            max_values = map (\<lambda>row. Max (set row)) paths;
            final_values = map (\<lambda>f. if f < 0 then 0 else f) final_values;
            final_values = map2 (\<lambda>f m. if m \<ge> g_L g then 0 else f) final_values max_values
        in Inr final_values)"

definition term_firm_val :: "matrix \<Rightarrow> py_error + real list" where
  "term_firm_val firm_path =
     (if list_ex (\<lambda>row. row = []) firm_path then Inl IndexError else Inr (map last firm_path))"

definition amount_lost :: "globals \<Rightarrow> real list \<Rightarrow> real list \<Rightarrow> real list" where
  "amount_lost g firm_vals final_vals =
     map2 (\<lambda>v f. exp (- g_r g * g_T g) * (1 - g_recovery g) * of_bool (v < g_debt g) * f)
       firm_vals final_vals"

definition cva_est :: "globals \<Rightarrow> real list \<Rightarrow> real list \<Rightarrow> real" where
  "cva_est g firm_vals final_vals = mean (amount_lost g firm_vals final_vals)"

definition DFValue :: "globals \<Rightarrow> real list \<Rightarrow> real" where
  "DFValue g final_vals = mean (map (\<lambda>f. f * exp (- g_r g * g_T g)) final_vals)"

definition default_prob :: "cdf \<Rightarrow> globals \<Rightarrow> py_error + real" where
  "default_prob Phi g =
     ebind (d2 (g_V g) (g_debt g) (g_r g) (g_sigma g) (g_T g)) (\<lambda>v. Inr (Phi (- v)))"

definition uncorr_cva :: "cdf \<Rightarrow> globals \<Rightarrow> py_error + real" where
  "uncorr_cva Phi g =
     ebind (C Phi g) (\<lambda>C_value.
     ebind (default_prob Phi g) (\<lambda>default_prob_value.
     Inr ((1 - g_recovery g) * default_prob_value * C_value)))"

section \<open>The specification's formulas\<close>

text \<open>
  The definitions of this section follow the words of the specification, not the code;
  the theorems compare the code with them.
\<close>

text \<open>
  The lattice pricer of the specification: \<open>u = e^(\<sigma>\<surd>(T/N))\<close>, \<open>d = 1/u\<close>,
  \<open>p = (e^(rT/N) - d)/(u - d)\<close>; node prices \<open>S0 u^(j-i) d^i\<close> for \<open>j = 0..N\<close> and
  \<open>i = 0..j\<close>; terminal payoff \<open>max(S\<^bsub>i,N\<^esub> - K, 0)\<close> for a call and
  \<open>max(K - S\<^bsub>i,N\<^esub>, 0)\<close> for a put; at each earlier step the node value is
  \<open>e^(-rT/N) (p value_up + (1 - p) value_down)\<close>; the price is the value of the root
  node \<open>(i = 0, j = 0)\<close>. \<open>node_value_spec payoff disc p k i\<close> is the value of the node
  \<open>(i, N - k)\<close>, \<open>k\<close> steps before maturity: its up-successor is \<open>(i, N - k + 1)\<close> and its
  down-successor \<open>(i + 1, N - k + 1)\<close>.
\<close>

fun node_value_spec :: "(nat \<Rightarrow> real) \<Rightarrow> real \<Rightarrow> real \<Rightarrow> nat \<Rightarrow> nat \<Rightarrow> real" where
  "node_value_spec payoff disc p 0 i = payoff i"
| "node_value_spec payoff disc p (Suc k) i =
     disc * (p * node_value_spec payoff disc p k i
             + (1 - p) * node_value_spec payoff disc p k (i + 1))"

definition treePrice_spec :: "real \<Rightarrow> real \<Rightarrow> real \<Rightarrow> nat \<Rightarrow> real \<Rightarrow> real \<Rightarrow> bool \<Rightarrow> real" where
  "treePrice_spec S0 K T N sig r call =
     (let u = exp (sig * sqrt (T / real N));
          d = 1 / u;
          p = (exp (r * T / real N) - d) / (u - d);
          price = (\<lambda>i j. S0 * u ^ (j - i) * d ^ i);
          payoff = (\<lambda>i. if call then max (price i N - K) 0 else max (K - price i N) 0)
      in node_value_spec payoff (exp (- r * T / real N)) p N 0)"

text \<open>
  The Black-Scholes values: \<open>d1 = (ln(S0/K) + (r + \<sigma>\<^sup>2/2) T)/(\<sigma>\<surd>T)\<close>, \<open>d2 = d1 - \<sigma>\<surd>T\<close>,
  call \<open>S0 \<Phi>(d1) - K e^(-rT) \<Phi>(d2)\<close>, put \<open>K e^(-rT) \<Phi>(-d2) - S0 \<Phi>(-d1)\<close>.
\<close>

definition d1_spec :: "real \<Rightarrow> real \<Rightarrow> real \<Rightarrow> real \<Rightarrow> real \<Rightarrow> real" where
  "d1_spec S K r sigma T = (ln (S / K) + (r + sigma\<^sup>2 / 2) * T) / (sigma * sqrt T)"

definition d2_spec :: "real \<Rightarrow> real \<Rightarrow> real \<Rightarrow> real \<Rightarrow> real \<Rightarrow> real" where
  "d2_spec S K r sigma T = d1_spec S K r sigma T - sigma * sqrt T"

definition vanillaPrice_call_spec :: "cdf \<Rightarrow> real \<Rightarrow> real \<Rightarrow> real \<Rightarrow> real \<Rightarrow> real \<Rightarrow> real" where
  "vanillaPrice_call_spec Phi S0 K T sigma r =
     S0 * Phi (d1_spec S0 K r sigma T) - K * exp (- (r * T)) * Phi (d2_spec S0 K r sigma T)"

definition vanillaPrice_put_spec :: "cdf \<Rightarrow> real \<Rightarrow> real \<Rightarrow> real \<Rightarrow> real \<Rightarrow> real \<Rightarrow> real" where
  "vanillaPrice_put_spec Phi S0 K T sigma r =
     K * exp (- (r * T)) * Phi (- d2_spec S0 K r sigma T) - S0 * Phi (- d1_spec S0 K r sigma T)"

text \<open>
  The closed form of the up-and-out call, stated in the parameter \<open>S0\<close> throughout:
  \<open>\<lambda> = (r + \<sigma>\<^sup>2/2)/\<sigma>\<^sup>2\<close>, \<open>x1 = ln(S0/L)/(\<sigma>\<surd>T) + \<lambda>\<sigma>\<surd>T\<close>,
  \<open>y1 = ln(L/S0)/(\<sigma>\<surd>T) + \<lambda>\<sigma>\<surd>T\<close>, \<open>y = ln(L\<^sup>2/(S0 K))/(\<sigma>\<surd>T) + \<lambda>\<sigma>\<surd>T\<close>.
\<close>

definition upAndOutCallPrice_spec :: "cdf \<Rightarrow> real \<Rightarrow> real \<Rightarrow> real \<Rightarrow> real \<Rightarrow> real \<Rightarrow> real \<Rightarrow> real" where
  "upAndOutCallPrice_spec Phi S0 K L T sigma r =
     (let lambda = (r + sigma\<^sup>2 / 2) / sigma\<^sup>2;
          x1 = ln (S0 / L) / (sigma * sqrt T) + lambda * sigma * sqrt T;
          y1 = ln (L / S0) / (sigma * sqrt T) + lambda * sigma * sqrt T;
          y = ln (L\<^sup>2 / (S0 * K)) / (sigma * sqrt T) + lambda * sigma * sqrt T
      in S0 * Phi (d1_spec S0 K r sigma T) - K * exp (- (r * T)) * Phi (d2_spec S0 K r sigma T)
         - S0 * Phi x1 + K * exp (- (r * T)) * Phi (x1 - sigma * sqrt T)
         + S0 * (L / S0) powr (2 * lambda) * (Phi (- y) - Phi (- y1))
         - K * exp (- (r * T)) * (L / S0) powr (2 * lambda - 2)
             * (Phi (- y + sigma * sqrt T) - Phi (- y1 + sigma * sqrt T)))"

text \<open>
  The analytical cross-check of the credit valuation adjustment:
  \<open>(1 - recoveryRate) \<Phi>(-d2(V0, D, r, \<sigma>_firm, T)) vanillaPrice(S0, K, T, \<sigma>, r, call)\<close>,
  with \<open>\<sigma>_firm\<close> the volatility of the firm value.
\<close>

definition uncorrelatedCVA_spec ::
    "cdf \<Rightarrow> real \<Rightarrow> real \<Rightarrow> real \<Rightarrow> real \<Rightarrow> real \<Rightarrow> real \<Rightarrow> real \<Rightarrow> real \<Rightarrow> real \<Rightarrow> real" where
  "uncorrelatedCVA_spec Phi recoveryRate V0 D r sigma_firm T S0 K sigma =
     (1 - recoveryRate) * Phi (- d2_spec V0 D r sigma_firm T)
       * vanillaPrice_call_spec Phi S0 K T sigma r"

section \<open>Auxiliary notions of the proofs\<close>

text \<open>A square array of side \<open>n\<close>.\<close>

definition is_mat :: "nat \<Rightarrow> matrix \<Rightarrow> bool" where
  "is_mat n M \<longleftrightarrow> length M = n \<and> (\<forall>row \<in> set M. length row = n)"

text \<open>The update of one node of one option grid in the backward loop of \<open>vanillaTree\<close>.\<close>

definition back_step :: "real \<Rightarrow> real \<Rightarrow> nat \<Rightarrow> nat \<Rightarrow> matrix \<Rightarrow> py_error + matrix" where
  "back_step disc p j i M =
     ebind (mat_get M i (j + 1)) (\<lambda>up.
     ebind (mat_get M (i + 1) (j + 1)) (\<lambda>down.
     mat_set M i j (disc * (p * up + (1 - p) * down))))"



text \<open>
  The float operations of \<open>analytical_value_Call_Up_Out\<close> stay inside the float range:
  the condition under which it raises nothing.
\<close>

definition no_float_error :: "real \<Rightarrow> real \<Rightarrow> real \<Rightarrow> real \<Rightarrow> real \<Rightarrow> bool" where
  "no_float_error S0 K L r sigma \<longleftrightarrow>
     (let l = (r + sigma\<^sup>2 / 2) / sigma\<^sup>2
      in \<not> overflows (sigma\<^sup>2) \<and> \<not> rounds_to_zero (sigma\<^sup>2) \<and> \<not> overflows (L\<^sup>2)
         \<and> \<not> rounds_to_zero (S0 * K) \<and> \<not> rounds_to_zero (L / S0)
         \<and> \<not> overflows ((L / S0) powr (2 * l)) \<and> \<not> overflows ((L / S0) powr (2 * l - 2)))"

text \<open>A magnitude far inside the float range.\<close>

definition moderate :: "real \<Rightarrow> bool" where
  "moderate x \<longleftrightarrow> 1 / 2 ^ 250 \<le> x \<and> x \<le> 2 ^ 250"

section \<open>Properties\<close>

subsection \<open>The stand-in distribution function\<close>

lemma sigmoid_symmetric: "sigmoid (- x) = 1 - sigmoid x"
  by (simp add: sigmoid_def)

lemma sigmoid_zero: "sigmoid 0 = 1 / 2"
  by (simp add: sigmoid_def)

lemma sigmoid_pos: "0 < sigmoid x"
proof -
  have "- 1 < x / (1 + \<bar>x\<bar>)"
    by (simp add: field_simps abs_if)
  then show ?thesis
    by (simp add: sigmoid_def field_simps abs_if) 
qed

lemma sigmoid_less_one: "sigmoid x < 1"
  by (simp add: sigmoid_def field_simps abs_if)

lemma sigmoid_strict_mono: "strict_mono sigmoid"
proof (rule strict_monoI)
  fix x y :: real
  assume "x < y"
  have "x * (1 + \<bar>y\<bar>) < y * (1 + \<bar>x\<bar>)"
  proof (cases "0 \<le> x")
    case True
    with \<open>x < y\<close> show ?thesis by (simp add: algebra_simps)
  next
    case False
    show ?thesis
    proof (cases "0 \<le> y")
      case True
      from False True have "x * y \<le> 0" by (simp add: mult_nonpos_nonneg)
      with False True \<open>x < y\<close> show ?thesis by (simp add: algebra_simps)
    next
      case y: False
      with False \<open>x < y\<close> show ?thesis by (simp add: algebra_simps)
    qed
  qed
  then have "x / (1 + \<bar>x\<bar>) < y / (1 + \<bar>y\<bar>)"
    by (simp add: field_simps)
  then have "x / (1 + \<bar>x\<bar>) / 2 < y / (1 + \<bar>y\<bar>) / 2"
    by (rule divide_strict_right_mono) simp
  moreover have "sigmoid z = 1 / 2 + z / (1 + \<bar>z\<bar>) / 2" for z
    by (simp add: sigmoid_def)
  ultimately show "sigmoid x < sigmoid y"
    by simp
qed

lemma sigmoid_mono: "mono sigmoid"
  by (rule strict_mono_mono [OF sigmoid_strict_mono])

subsection \<open>Black-Scholes closed form\<close>

text \<open>
  C4. For \<open>S > 0\<close>, \<open>K > 0\<close>, \<open>T > 0\<close>, \<open>sig > 0\<close> and every \<open>r\<close>, \<open>vanillaBS\<close> returns
  the Black-Scholes values: with \<open>d1 = (ln (S/K) + (r + sig\<^sup>2/2) T) / (sig \<surd>T)\<close> and
  \<open>d2 = d1 - sig \<surd>T\<close> (\<open>d1_spec\<close>, \<open>d2_spec\<close>), the call branch returns
  \<open>S \<Phi>(d1) - K e^(-rT) \<Phi>(d2)\<close> and the put branch returns
  \<open>K e^(-rT) \<Phi>(-d2) - S \<Phi>(-d1)\<close>.
\<close>

theorem vanillaBS_black_scholes:
  assumes "0 < S" and "0 < K" and "0 < T" and "0 < sig"
  shows "vanillaBS Phi S K T sig r True = Inr (vanillaPrice_call_spec Phi S K T sig r)
       \<and> vanillaBS Phi S K T sig r False = Inr (vanillaPrice_put_spec Phi S K T sig r)"
  using assms(2)
  by (simp add: vanillaBS_def Let_def vanillaPrice_call_spec_def vanillaPrice_put_spec_def
        d1_spec_def d2_spec_def)

theorem vanillaBS_black_scholes_witness:
  "(0::real) < 2 \<and> (0::real) < 1
   \<and> vanillaBS sigmoid 2 1 1 1 0 True = Inr (vanillaPrice_call_spec sigmoid 2 1 1 1 0)
   \<and> vanillaBS sigmoid 2 1 1 1 0 False = Inr (vanillaPrice_put_spec sigmoid 2 1 1 1 0)"
  using vanillaBS_black_scholes [of 2 1 1 1 sigmoid 0] by simp

text \<open>
  C3. Put-call parity: for \<open>S > 0\<close>, \<open>K > 0\<close>, \<open>T > 0\<close>, \<open>sig > 0\<close> and every \<open>r\<close>, the call
  value minus the put value of \<open>vanillaBS\<close> is \<open>S - K e^(-rT)\<close>, given the identity
  \<open>\<Phi>(-x) = 1 - \<Phi>(x)\<close> of the normal distribution function.
\<close>

theorem vanillaBS_put_call_parity:
  assumes "0 < S" and "0 < K" and "0 < T" and "0 < sig"
    and sym: "\<And>x. Phi (- x) = 1 - Phi x"
  shows "\<exists>c p. vanillaBS Phi S K T sig r True = Inr c
             \<and> vanillaBS Phi S K T sig r False = Inr p
             \<and> c - p = S - K * exp (- (r * T))"
proof -
  define da where "da = (ln (S / K) + (r + sig\<^sup>2 / 2) * T) / (sig * sqrt T)"
  define db where "db = da - sig * sqrt T"
  define c where "c = S * Phi da - exp (- r * T) * K * Phi db"
  define p where "p = - S * Phi (- da) + exp (- r * T) * K * Phi (- db)"
  from \<open>0 < K\<close> have "K \<noteq> 0" by simp
  then have "vanillaBS Phi S K T sig r True = Inr c"
    and "vanillaBS Phi S K T sig r False = Inr p"
    by (simp_all add: vanillaBS_def Let_def c_def p_def da_def db_def)
  moreover have "c - p = S - K * exp (- (r * T))"
    unfolding c_def p_def sym [of da] sym [of db] by (simp add: algebra_simps)
  ultimately show ?thesis by blast
qed

theorem vanillaBS_put_call_parity_witness:
  "\<exists>c p. vanillaBS sigmoid 2 1 1 1 0 True = Inr c
        \<and> vanillaBS sigmoid 2 1 1 1 0 False = Inr p
        \<and> c - p = 2 - 1 * exp (- (0 * 1))"
  using vanillaBS_put_call_parity [of 2 1 1 1 sigmoid 0] sigmoid_symmetric by simp

subsection \<open>The binomial tree\<close>

lemma ebind_Inr [simp]: "ebind (Inr v) f = f v"
  by (simp add: ebind_def)

lemma ebind_Inl [simp]: "ebind (Inl e) f = Inl e"
  by (simp add: ebind_def)

lemma for_each_append: "for_each (xs @ ys) body s = ebind (for_each xs body s) (for_each ys body)"
  by (induction xs arbitrary: s) (auto simp: ebind_def split: sum.splits)

lemma for_each_single: "for_each [x] body = body x"
  by (rule ext) (simp add: ebind_def split: sum.splits)

lemma for_each_snoc: "for_each [0..<Suc m] body s = ebind (for_each [0..<m] body s) (body m)"
  by (simp add: for_each_append for_each_single)

lemma is_mat_zeros: "is_mat n (zeros n n)"
  by (simp add: is_mat_def zeros_def)

lemma zeros_nth: "i < n \<Longrightarrow> j < n \<Longrightarrow> zeros n n ! i ! j = 0"
  by (simp add: zeros_def)

lemma is_mat_row: "is_mat n M \<Longrightarrow> i < n \<Longrightarrow> length (M ! i) = n"
  by (simp add: is_mat_def)

lemma is_mat_update:
  assumes "is_mat n M" and "i < n"
  shows "is_mat n (M[i := (M ! i)[j := v]])"
  using assms unfolding is_mat_def by (auto dest!: set_update_subset_insert [THEN subsetD])

lemma mat_update_nth:
  assumes "is_mat n M" and "i < n" and "j < n" and "i' < n" and "j' < n"
  shows "M[i := (M ! i)[j := v]] ! i' ! j' = (if i' = i \<and> j' = j then v else M ! i' ! j')"
  using assms by (auto simp: is_mat_def nth_list_update)

lemma mat_set_ok:
  assumes "is_mat n M" and "i < n" and "j < n"
  shows "mat_set M i j v = Inr (M[i := (M ! i)[j := v]])"
  using assms by (simp add: mat_set_def is_mat_def)

lemma mat_get_ok:
  assumes "is_mat n M" and "i < n" and "j < n"
  shows "mat_get M i j = Inr (M ! i ! j)"
  using assms by (simp add: mat_get_def is_mat_def)

lemma fill_col:
  assumes "is_mat n M" and "j < n" and "m \<le> n"
  shows "\<exists>M'. for_each [0..<m] (\<lambda>i t. mat_set t i j (g i)) M = Inr M' \<and> is_mat n M'
            \<and> (\<forall>i'<n. \<forall>j'<n. M' ! i' ! j' = (if j' = j \<and> i' < m then g i' else M ! i' ! j'))"
  using assms(3)
proof (induction m)
  case 0
  with assms show ?case by simp
next
  case (Suc m)
  then obtain M1 where loop: "for_each [0..<m] (\<lambda>i t. mat_set t i j (g i)) M = Inr M1"
    and mat: "is_mat n M1"
    and vals: "\<forall>i'<n. \<forall>j'<n. M1 ! i' ! j' = (if j' = j \<and> i' < m then g i' else M ! i' ! j')"
    by auto
  from Suc.prems have m: "m < n" by simp
  let ?M' = "M1[m := (M1 ! m)[j := g m]]"
  have "for_each [0..<Suc m] (\<lambda>i t. mat_set t i j (g i)) M = Inr ?M'"
    by (simp only: for_each_snoc loop ebind_Inr mat_set_ok [OF mat m assms(2)])
  moreover have "is_mat n ?M'"
    by (rule is_mat_update [OF mat m])
  moreover have "\<forall>i'<n. \<forall>j'<n. ?M' ! i' ! j' = (if j' = j \<and> i' < Suc m then g i' else M ! i' ! j')"
    using vals by (auto simp: mat_update_nth [OF mat m assms(2)] less_Suc_eq)
  ultimately show ?case by blast
qed

lemma fill_tree:
  assumes "is_mat n M" and "m \<le> n"
  shows "\<exists>M'. for_each [0..<m] (\<lambda>j. for_each [0..<j + 1] (\<lambda>i t. mat_set t i j (g i j))) M = Inr M'
            \<and> is_mat n M'
            \<and> (\<forall>i'<n. \<forall>j'<n. M' ! i' ! j' = (if j' < m \<and> i' \<le> j' then g i' j' else M ! i' ! j'))"
  using assms(2)
proof (induction m)
  case 0
  with assms show ?case by simp
next
  case (Suc m)
  let ?body = "\<lambda>j. for_each [0..<j + 1] (\<lambda>i t. mat_set t i j (g i j))"
  from Suc obtain M1 where loop: "for_each [0..<m] ?body M = Inr M1"
    and mat: "is_mat n M1"
    and vals: "\<forall>i'<n. \<forall>j'<n. M1 ! i' ! j' = (if j' < m \<and> i' \<le> j' then g i' j' else M ! i' ! j')"
    by auto
  from Suc.prems have m: "m < n" "m + 1 \<le> n" by simp_all
  from fill_col [OF mat m(1) m(2), of "\<lambda>i. g i m"]
  obtain M2 where col: "?body m M1 = Inr M2" and mat2: "is_mat n M2"
    and vals2: "\<forall>i'<n. \<forall>j'<n. M2 ! i' ! j' = (if j' = m \<and> i' < m + 1 then g i' m else M1 ! i' ! j')"
    by blast
  have "for_each [0..<Suc m] ?body M = Inr M2"
    by (simp only: for_each_snoc loop ebind_Inr col)
  moreover have "\<forall>i'<n. \<forall>j'<n. M2 ! i' ! j' = (if j' < Suc m \<and> i' \<le> j' then g i' j' else M ! i' ! j')"
    using vals vals2 by (auto simp: less_Suc_eq)
  ultimately show ?case using mat2 by blast
qed


lemma get_col_ok:
  assumes "is_mat n M" and "j < n"
  shows "get_col M j = Inr (map (\<lambda>row. row ! j) M)"
  using assms by (simp add: get_col_def is_mat_def list_all_iff)

lemma np_maximum_ok:
  assumes "length xs = length ys"
  shows "np_maximum xs ys = Inr (map2 max xs ys)"
  using assms by (simp add: np_maximum_def)

lemma set_col_ok:
  assumes "is_mat n M" and "j < n" and "length vs = n"
  shows "\<exists>M'. set_col M j vs = Inr M' \<and> is_mat n M'
            \<and> (\<forall>i'<n. \<forall>j'<n. M' ! i' ! j' = (if j' = j then vs ! i' else M ! i' ! j'))"
proof -
  let ?M' = "map2 (\<lambda>row v. row[j := v]) M vs"
  have "set_col M j vs = Inr ?M'"
    using assms by (simp add: set_col_def is_mat_def list_all_iff)
  moreover have "is_mat n ?M'"
    using assms by (auto simp: is_mat_def dest!: set_zip_leftD)
  moreover have "\<forall>i'<n. \<forall>j'<n. ?M' ! i' ! j' = (if j' = j then vs ! i' else M ! i' ! j')"
    using assms by (auto simp: is_mat_def)
  ultimately show ?thesis by blast
qed

lemma for_each_pair:
  assumes step: "\<And>x a b a' b'. f x a = Inr a' \<Longrightarrow> g x b = Inr b' \<Longrightarrow> h x (a, b) = Inr (a', b')"
    and "for_each xs f A = Inr A'" and "for_each xs g B = Inr B'"
  shows "for_each xs h (A, B) = Inr (A', B')"
  using assms(2,3)
proof (induction xs arbitrary: A B)
  case Nil
  then show ?case by simp
next
  case (Cons x xs)
  from Cons.prems(1) obtain a1 where a1: "f x A = Inr a1" "for_each xs f a1 = Inr A'"
    by (cases "f x A") simp_all
  from Cons.prems(2) obtain b1 where b1: "g x B = Inr b1" "for_each xs g b1 = Inr B'"
    by (cases "g x B") simp_all
  show ?case
    using step [OF a1(1) b1(1)] Cons.IH [OF a1(2) b1(2)] by simp
qed

lemma back_col:
  assumes "is_mat n M" and "j + 1 < n" and "m \<le> j + 1"
  shows "\<exists>M'. for_each [0..<m] (back_step disc p j) M = Inr M' \<and> is_mat n M'
            \<and> (\<forall>i'<n. \<forall>j'<n. M' ! i' ! j' =
                  (if j' = j \<and> i' < m
                   then disc * (p * M ! i' ! (j + 1) + (1 - p) * M ! (i' + 1) ! (j + 1))
                   else M ! i' ! j'))"
  using assms(3)
proof (induction m)
  case 0
  with assms show ?case by simp
next
  case (Suc m)
  then obtain M1 where loop: "for_each [0..<m] (back_step disc p j) M = Inr M1"
    and mat: "is_mat n M1"
    and vals: "\<forall>i'<n. \<forall>j'<n. M1 ! i' ! j' =
                  (if j' = j \<and> i' < m
                   then disc * (p * M ! i' ! (j + 1) + (1 - p) * M ! (i' + 1) ! (j + 1))
                   else M ! i' ! j')"
    by auto
  from Suc.prems assms(2) have m: "m < n" "m + 1 < n" "j < n" by simp_all
  let ?v = "disc * (p * M1 ! m ! (j + 1) + (1 - p) * M1 ! (m + 1) ! (j + 1))"
  let ?M' = "M1[m := (M1 ! m)[j := ?v]]"
  have step: "back_step disc p j m M1 = Inr ?M'"
    unfolding back_step_def
    by (simp only: mat_get_ok [OF mat m(1) assms(2)] mat_get_ok [OF mat m(2) assms(2)]
          ebind_Inr mat_set_ok [OF mat m(1) m(3)])
  have "for_each [0..<Suc m] (back_step disc p j) M = Inr ?M'"
    by (simp only: for_each_snoc loop ebind_Inr step)
  moreover have "is_mat n ?M'"
    by (rule is_mat_update [OF mat m(1)])
  moreover have "\<forall>i'<n. \<forall>j'<n. ?M' ! i' ! j' =
                  (if j' = j \<and> i' < Suc m
                   then disc * (p * M ! i' ! (j + 1) + (1 - p) * M ! (i' + 1) ! (j + 1))
                   else M ! i' ! j')"
    using vals m assms(2) by (auto simp: mat_update_nth [OF mat m(1) m(3)] less_Suc_eq)
  ultimately show ?case by blast
qed

lemma back_tree:
  assumes "is_mat (N + 1) M" and "m \<le> N"
    and "\<forall>j. m \<le> j \<and> j \<le> N \<longrightarrow> (\<forall>i\<le>j. M ! i ! j = node_value_spec payoff disc p (N - j) i)"
  shows "\<exists>M'. for_each (rev [0..<m]) (\<lambda>j. for_each [0..<j + 1] (back_step disc p j)) M = Inr M'
            \<and> is_mat (N + 1) M'
            \<and> (\<forall>j\<le>N. \<forall>i\<le>j. M' ! i ! j = node_value_spec payoff disc p (N - j) i)"
  using assms
proof (induction m arbitrary: M)
  case 0
  then show ?case by simp
next
  case (Suc m)
  let ?body = "\<lambda>j. for_each [0..<j + 1] (back_step disc p j)"
  from Suc.prems(2) have m: "m + 1 < N + 1" "m + 1 \<le> m + 1" "m \<le> N" by simp_all
  from back_col [OF Suc.prems(1) m(1) m(2), of disc p]
  obtain M1 where col: "?body m M = Inr M1" and mat1: "is_mat (N + 1) M1"
    and vals1: "\<forall>i'<N + 1. \<forall>j'<N + 1. M1 ! i' ! j' =
                  (if j' = m \<and> i' < m + 1
                   then disc * (p * M ! i' ! (m + 1) + (1 - p) * M ! (i' + 1) ! (m + 1))
                   else M ! i' ! j')"
    by blast
  have inv1: "\<forall>j. m \<le> j \<and> j \<le> N \<longrightarrow> (\<forall>i\<le>j. M1 ! i ! j = node_value_spec payoff disc p (N - j) i)"
  proof (intro allI impI)
    fix j i assume j: "m \<le> j \<and> j \<le> N" and i: "i \<le> j"
    show "M1 ! i ! j = node_value_spec payoff disc p (N - j) i"
    proof (cases "j = m")
      case True
      with i j Suc.prems(2) have "M1 ! i ! j
          = disc * (p * M ! i ! (m + 1) + (1 - p) * M ! (i + 1) ! (m + 1))"
        using vals1 by simp
      also have "M ! i ! (m + 1) = node_value_spec payoff disc p (N - (m + 1)) i"
        using Suc.prems(2,3) i True by simp
      also have "M ! (i + 1) ! (m + 1) = node_value_spec payoff disc p (N - (m + 1)) (i + 1)"
        using Suc.prems(2,3) i True by simp
      also have "N - m = Suc (N - (m + 1))"
        using Suc.prems(2) by simp
      ultimately show ?thesis using True by simp
    next
      case False
      with i j have "M1 ! i ! j = M ! i ! j"
        using vals1 by simp
      with False i j Suc.prems(3) show ?thesis by simp
    qed
  qed
  from Suc.IH [OF mat1 m(3) inv1]
  obtain M' where rest: "for_each (rev [0..<m]) ?body M1 = Inr M'" and mat': "is_mat (N + 1) M'"
    and vals': "\<forall>j\<le>N. \<forall>i\<le>j. M' ! i ! j = node_value_spec payoff disc p (N - j) i"
    by blast
  have "for_each (rev [0..<Suc m]) ?body M = Inr M'"
    using col rest by simp
  with mat' vals' show ?case by blast
qed


lemma back_pair_loop:
  assumes "for_each (rev [0..<m]) (\<lambda>j. for_each [0..<j + 1] (back_step disc p j)) A = Inr A'"
    and "for_each (rev [0..<m]) (\<lambda>j. for_each [0..<j + 1] (back_step disc p j)) B = Inr B'"
  shows "for_each (rev [0..<m]) (\<lambda>j. for_each [0..<j + 1] (\<lambda>i (call, put).
                 ebind (mat_get call i (j + 1)) (\<lambda>call_up.
                 ebind (mat_get call (i + 1) (j + 1)) (\<lambda>call_down.
                 ebind (mat_set call i j (disc * (p * call_up + (1 - p) * call_down))) (\<lambda>call.
                 ebind (mat_get put i (j + 1)) (\<lambda>put_up.
                 ebind (mat_get put (i + 1) (j + 1)) (\<lambda>put_down.
                 ebind (mat_set put i j (disc * (p * put_up + (1 - p) * put_down))) (\<lambda>put.
                 Inr (call, put))))))))) (A, B) = Inr (A', B')"
proof (rule for_each_pair [OF _ assms])
  fix j a b a' b'
  assume "for_each [0..<j + 1] (back_step disc p j) a = Inr a'"
    and "for_each [0..<j + 1] (back_step disc p j) b = Inr b'"
  then show "for_each [0..<j + 1] (\<lambda>i (call, put).
                 ebind (mat_get call i (j + 1)) (\<lambda>call_up.
                 ebind (mat_get call (i + 1) (j + 1)) (\<lambda>call_down.
                 ebind (mat_set call i j (disc * (p * call_up + (1 - p) * call_down))) (\<lambda>call.
                 ebind (mat_get put i (j + 1)) (\<lambda>put_up.
                 ebind (mat_get put (i + 1) (j + 1)) (\<lambda>put_down.
                 ebind (mat_set put i j (disc * (p * put_up + (1 - p) * put_down))) (\<lambda>put.
                 Inr (call, put)))))))) (a, b) = Inr (a', b')"
  proof (rule for_each_pair [rotated])
    fix i a b a' b'
    assume "back_step disc p j i a = Inr a'" and "back_step disc p j i b = Inr b'"
    then show "(case (a, b) of (call, put) \<Rightarrow>
                 ebind (mat_get call i (j + 1)) (\<lambda>call_up.
                 ebind (mat_get call (i + 1) (j + 1)) (\<lambda>call_down.
                 ebind (mat_set call i j (disc * (p * call_up + (1 - p) * call_down))) (\<lambda>call.
                 ebind (mat_get put i (j + 1)) (\<lambda>put_up.
                 ebind (mat_get put (i + 1) (j + 1)) (\<lambda>put_down.
                 ebind (mat_set put i j (disc * (p * put_up + (1 - p) * put_down))) (\<lambda>put.
                 Inr (call, put)))))))) = Inr (a', b')"
      by (auto simp: back_step_def ebind_def split: sum.splits)
  qed
qed

lemma tree_core:
  fixes S K u d p disc :: real and N :: nat
  defines "price \<equiv> \<lambda>i j. S * u ^ (j - i) * d ^ i"
  defines "payoff \<equiv> \<lambda>c i. if c then max (price i N - K) 0 else max (K - price i N) 0"
  shows "ebind (for_each [0..<N + 1] (\<lambda>j. for_each [0..<j + 1] (\<lambda>i tree.
                 mat_set tree i j (S * u ^ (j - i) * d ^ i))) (zeros (N + 1) (N + 1))) (\<lambda>tree.
        ebind (get_col tree N) (\<lambda>tree_N.
        ebind (np_maximum (replicate (N + 1) 0) (map (\<lambda>x. x - K) tree_N)) (\<lambda>call_N.
        ebind (set_col (zeros (N + 1) (N + 1)) N call_N) (\<lambda>call.
        ebind (np_maximum (replicate (N + 1) 0) (map (\<lambda>x. - x + K) tree_N)) (\<lambda>put_N.
        ebind (set_col (zeros (N + 1) (N + 1)) N put_N) (\<lambda>put.
        ebind (for_each (rev [0..<N]) (\<lambda>j. for_each [0..<j + 1] (\<lambda>i (call, put).
                 ebind (mat_get call i (j + 1)) (\<lambda>call_up.
                 ebind (mat_get call (i + 1) (j + 1)) (\<lambda>call_down.
                 ebind (mat_set call i j (disc * (p * call_up + (1 - p) * call_down))) (\<lambda>call.
                 ebind (mat_get put i (j + 1)) (\<lambda>put_up.
                 ebind (mat_get put (i + 1) (j + 1)) (\<lambda>put_down.
                 ebind (mat_set put i j (disc * (p * put_up + (1 - p) * put_down))) (\<lambda>put.
                 Inr (call, put))))))))) (call, put)) (\<lambda>(call, put).
        if c then mat_get call 0 0 else mat_get put 0 0)))))))
     = Inr (node_value_spec (payoff c) disc p N 0)"
proof -
  let ?Z = "zeros (N + 1) (N + 1)"
  have Z: "is_mat (N + 1) ?Z" by (rule is_mat_zeros)
  from fill_tree [OF Z order_refl, of price]
  obtain tree where tree: "for_each [0..<N + 1] (\<lambda>j. for_each [0..<j + 1] (\<lambda>i tree.
                 mat_set tree i j (S * u ^ (j - i) * d ^ i))) ?Z = Inr tree"
    and tree_mat: "is_mat (N + 1) tree"
    and tree_vals: "\<forall>i'<N + 1. \<forall>j'<N + 1. tree ! i' ! j' =
         (if j' < N + 1 \<and> i' \<le> j' then price i' j' else ?Z ! i' ! j')"
    unfolding price_def by blast
  define tree_N where "tree_N = map (\<lambda>row. row ! N) tree"
  have len: "length tree_N = N + 1"
    using tree_mat by (simp add: tree_N_def is_mat_def)
  have col: "get_col tree N = Inr tree_N"
    unfolding tree_N_def by (rule get_col_ok [OF tree_mat]) simp
  have tree_N: "tree_N ! i = price i N" if "i \<le> N" for i
    using that tree_vals tree_mat by (simp add: tree_N_def is_mat_def)
  define call_N where "call_N = map2 max (replicate (N + 1) 0) (map (\<lambda>x. x - K) tree_N)"
  define put_N where "put_N = map2 max (replicate (N + 1) 0) (map (\<lambda>x. - x + K) tree_N)"
  have call_N: "np_maximum (replicate (N + 1) 0) (map (\<lambda>x. x - K) tree_N) = Inr call_N"
    unfolding call_N_def by (rule np_maximum_ok) (simp add: len)
  have put_N: "np_maximum (replicate (N + 1) 0) (map (\<lambda>x. - x + K) tree_N) = Inr put_N"
    unfolding put_N_def by (rule np_maximum_ok) (simp add: len)
  have call_N_val: "call_N ! i = payoff True i" if "i \<le> N" for i
    using that len by (simp add: call_N_def payoff_def tree_N max.commute del: replicate.simps)
  have put_N_val: "put_N ! i = payoff False i" if "i \<le> N" for i
    using that len by (simp add: put_N_def payoff_def tree_N max.commute del: replicate.simps)
  have N: "N < N + 1" by simp
  from set_col_ok [OF Z N, of call_N]
  obtain call where call: "set_col ?Z N call_N = Inr call" and call_mat: "is_mat (N + 1) call"
    and call_vals: "\<forall>i'<N + 1. \<forall>j'<N + 1. call ! i' ! j' = (if j' = N then call_N ! i' else ?Z ! i' ! j')"
    using len by (auto simp: call_N_def)
  from set_col_ok [OF Z N, of put_N]
  obtain put where put: "set_col ?Z N put_N = Inr put" and put_mat: "is_mat (N + 1) put"
    and put_vals: "\<forall>i'<N + 1. \<forall>j'<N + 1. put ! i' ! j' = (if j' = N then put_N ! i' else ?Z ! i' ! j')"
    using len by (auto simp: put_N_def)
  have call_inv: "\<forall>j. N \<le> j \<and> j \<le> N \<longrightarrow>
      (\<forall>i\<le>j. call ! i ! j = node_value_spec (payoff True) disc p (N - j) i)"
    using call_vals call_N_val by auto
  have put_inv: "\<forall>j. N \<le> j \<and> j \<le> N \<longrightarrow>
      (\<forall>i\<le>j. put ! i ! j = node_value_spec (payoff False) disc p (N - j) i)"
    using put_vals put_N_val by auto
  from back_tree [OF call_mat order_refl call_inv]
  obtain call' where call': "for_each (rev [0..<N]) (\<lambda>j. for_each [0..<j + 1] (back_step disc p j)) call = Inr call'"
    and call'_mat: "is_mat (N + 1) call'"
    and call'_vals: "\<forall>j\<le>N. \<forall>i\<le>j. call' ! i ! j = node_value_spec (payoff True) disc p (N - j) i"
    by blast
  from back_tree [OF put_mat order_refl put_inv]
  obtain put' where put': "for_each (rev [0..<N]) (\<lambda>j. for_each [0..<j + 1] (back_step disc p j)) put = Inr put'"
    and put'_mat: "is_mat (N + 1) put'"
    and put'_vals: "\<forall>j\<le>N. \<forall>i\<le>j. put' ! i ! j = node_value_spec (payoff False) disc p (N - j) i"
    by blast
  have root_call: "mat_get call' 0 0 = Inr (node_value_spec (payoff True) disc p N 0)"
    using mat_get_ok [OF call'_mat, of 0 0] call'_vals by simp
  have root_put: "mat_get put' 0 0 = Inr (node_value_spec (payoff False) disc p N 0)"
    using mat_get_ok [OF put'_mat, of 0 0] put'_vals by simp
  show ?thesis
    by (simp only: tree col call_N call put_N put back_pair_loop [OF call' put'] ebind_Inr
          prod.case root_call root_put if_distrib [of Inr] split: if_splits) simp
qed

text \<open>
  C5. For every \<open>N \<ge> 1\<close> and valid parameters, \<open>vanillaTree\<close> returns the price of the
  specification's lattice algorithm: the factors \<open>u\<close>, \<open>d = 1/u\<close> and the probability
  \<open>p\<close>, the node prices \<open>S u^(j-i) d^i\<close>, the terminal payoffs of the call and the put,
  the backward induction \<open>e^(-rT/N) (p value_up + (1 - p) value_down)\<close>, and the value
  of the root node as the result. No index leaves the arrays on the way.
\<close>

theorem vanillaTree_lattice_algorithm:
  assumes "1 \<le> N" and "0 < T" and "0 < sig"
  shows "vanillaTree S K T N sig r d c = Inr (treePrice_spec S K T N sig r c)"
proof -
  from \<open>1 \<le> N\<close> have "N \<noteq> 0" by simp
  then show ?thesis
    unfolding vanillaTree_def treePrice_spec_def Let_def
    by (simp only: if_False tree_core) simp
qed

theorem vanillaTree_lattice_algorithm_witness:
  "(1::nat) \<le> 2 \<and> (0::real) < 2 \<and> (0::real) < 1
   \<and> vanillaTree 100 100 2 2 1 0 5 True = Inr (treePrice_spec 100 100 2 2 1 0 True)"
  using vanillaTree_lattice_algorithm [of 2 2 1 100 100 0 5 True] by simp

text \<open>
  One step, by direct evaluation of the loops: the one-period binomial price, in the
  code and in the specification's recursion.
\<close>

lemma vanillaTree_one_step:
  "vanillaTree S K T 1 sig r d True
     = (let u = exp (sig * sqrt T); d = 1 / u; p = (exp (r * T) - d) / (u - d)
        in Inr (exp (- r * T) * (p * max 0 (S * u - K) + (1 - p) * max 0 (S * d - K))))"
  by (simp add: vanillaTree_def Let_def zeros_def mat_set_def mat_get_def get_col_def set_col_def
        np_maximum_def upt_rec)

lemma treePrice_spec_one_step:
  "treePrice_spec S K T 1 sig r True
     = (let u = exp (sig * sqrt T); d = 1 / u; p = (exp (r * T) - d) / (u - d)
        in exp (- r * T) * (p * max (S * u - K) 0 + (1 - p) * max (S * d - K) 0))"
  by (simp add: treePrice_spec_def Let_def)

text \<open>
  C10. The result of \<open>vanillaTree\<close> does not depend on the argument \<open>d\<close>: the function
  rebinds \<open>d\<close> to \<open>1/u\<close> before its first use.
\<close>

theorem vanillaTree_ignores_d:
  "vanillaTree S K T N sig r d c = vanillaTree S K T N sig r d' c"
  by (simp only: vanillaTree_def)

subsection \<open>The credit valuation adjustment\<close>

lemma knock_out_rows:
  "map2 (\<lambda>f m. if m \<ge> L then 0 else f)
     (map (\<lambda>f. if f < 0 then 0 else f) (map (\<lambda>row. last row - K) paths))
     (map (\<lambda>row. Max (set row)) paths)
   = map (\<lambda>row. if Max (set row) \<ge> L then 0 else max (last row - K) (0::real)) paths"
  by (induction paths) (auto simp: max_def)

lemma final_values_rows:
  assumes "[] \<notin> set paths"
  shows "final_values g paths
     = Inr (map (\<lambda>row. if Max (set row) \<ge> g_L g then 0 else max (last row - g_K g) 0) paths)"
  using assms unfolding final_values_def Let_def knock_out_rows
  by (auto simp: list_ex_iff)

lemma final_values_nonneg:
  assumes "final_values g paths = Inr final_vals" and "f \<in> set final_vals"
  shows "0 \<le> f"
proof -
  from assms(1) have "[] \<notin> set paths"
    by (auto simp: final_values_def list_ex_iff split: if_splits)
  from final_values_rows [OF this, of g] assms show ?thesis by auto
qed

lemma loss_bounds:
  fixes e recov f :: real
  assumes "0 < e" and "0 \<le> recov" and "recov \<le> 1" and "0 \<le> f"
  shows "0 \<le> e * (1 - recov) * of_bool b * f" and "e * (1 - recov) * of_bool b * f \<le> f * e"
proof -
  from assms have ef: "0 \<le> e * f" by simp
  from assms have r: "0 \<le> 1 - recov" "1 - recov \<le> 1" by simp_all
  have lo: "0 \<le> (1 - recov) * (e * f)"
    using r(1) ef by (rule mult_nonneg_nonneg)
  have "(1 - recov) * (e * f) \<le> 1 * (e * f)"
    using r(2) ef by (rule mult_right_mono)
  then have hi: "(1 - recov) * (e * f) \<le> e * f" by simp
  have eq: "e * (1 - recov) * of_bool b * f = (if b then (1 - recov) * (e * f) else 0)"
    by simp
  show "0 \<le> e * (1 - recov) * of_bool b * f"
    unfolding eq using lo by simp
  show "e * (1 - recov) * of_bool b * f \<le> f * e"
    unfolding eq using hi ef by (simp add: mult.commute)
qed

lemma amount_lost_Cons:
  "amount_lost g (v # vs) (f # fs)
     = exp (- g_r g * g_T g) * (1 - g_recovery g) * of_bool (v < g_debt g) * f
       # amount_lost g vs fs"
  by (simp add: amount_lost_def)

lemma amount_lost_sums:
  assumes "0 \<le> g_recovery g" and "g_recovery g \<le> 1"
    and "length firm_vals = length final_vals" and "\<forall>f\<in>set final_vals. 0 \<le> f"
  shows "0 \<le> sum_list (amount_lost g firm_vals final_vals)
       \<and> sum_list (amount_lost g firm_vals final_vals)
           \<le> sum_list (map (\<lambda>f. f * exp (- g_r g * g_T g)) final_vals)"
  using assms(3,4)
proof (induction firm_vals final_vals rule: list_induct2)
  case Nil
  then show ?case by (simp add: amount_lost_def)
next
  case (Cons v vs f fs)
  then have f: "0 \<le> f" by simp
  have e: "0 < exp (- g_r g * g_T g)" by simp
  from Cons have IH: "0 \<le> sum_list (amount_lost g vs fs)"
    "sum_list (amount_lost g vs fs) \<le> sum_list (map (\<lambda>f. f * exp (- g_r g * g_T g)) fs)"
    by simp_all
  note b = loss_bounds [OF e assms(1,2) f, of "v < g_debt g"]
  have "0 \<le> sum_list (amount_lost g (v # vs) (f # fs))"
    unfolding amount_lost_Cons sum_list.Cons using b(1) IH(1) by (rule add_nonneg_nonneg)
  moreover have "sum_list (amount_lost g (v # vs) (f # fs))
      \<le> sum_list (map (\<lambda>f. f * exp (- g_r g * g_T g)) (f # fs))"
    unfolding amount_lost_Cons sum_list.Cons list.map using b(2) IH(2) by (rule add_mono)
  ultimately show ?case by blast
qed

text \<open>
  C6. With a recovery rate in \<open>[0, 1]\<close> and non-negative payoffs, the estimate of the
  credit valuation adjustment lies between 0 and the default-free value: \<open>cva_est\<close> is
  the mean over the paths of \<open>e^(-rT) (1 - recovery) [firm value at maturity < debt] payoff\<close>
  and \<open>DFValue\<close> the mean of \<open>e^(-rT) payoff\<close>.
\<close>

theorem cva_est_bounds:
  assumes "0 \<le> g_recovery g" and "g_recovery g \<le> 1"
    and "length firm_vals = length final_vals" and "\<forall>f\<in>set final_vals. 0 \<le> f"
  shows "0 \<le> cva_est g firm_vals final_vals
       \<and> cva_est g firm_vals final_vals \<le> DFValue g final_vals"
proof -
  have len: "length (amount_lost g firm_vals final_vals) = length final_vals"
    using assms(3) by (simp add: amount_lost_def)
  from amount_lost_sums [OF assms] show ?thesis
    unfolding cva_est_def DFValue_def mean_def len
    by (simp add: divide_right_mono)
qed

theorem cva_est_bounds_witness:
  "final_values notebook_globals [[100, 120, 130], [100, 150, 160]] = Inr [30, 0]
   \<and> term_firm_val [[200, 150], [200, 210]] = Inr [150, 210]
   \<and> 0 \<le> cva_est notebook_globals [150, 210] [30, 0]
   \<and> cva_est notebook_globals [150, 210] [30, 0] \<le> DFValue notebook_globals [30, 0]"
  using cva_est_bounds [of notebook_globals "[150, 210]" "[30, 0]"]
  by (simp add: notebook_globals_def final_values_rows term_firm_val_def)

text \<open>
  The same bounds for the arrays that the cell computes from \<open>paths\<close> and \<open>firm_path\<close>:
  its payoffs are never negative.
\<close>

lemma cva_cell_bounds:
  assumes "0 \<le> g_recovery g" and "g_recovery g \<le> 1"
    and "final_values g paths = Inr final_vals" and "term_firm_val firm_path = Inr firm_vals"
    and "length firm_path = length paths"
  shows "0 \<le> cva_est g firm_vals final_vals
       \<and> cva_est g firm_vals final_vals \<le> DFValue g final_vals"
proof -
  from assms(3) have "length final_vals = length paths"
    by (auto simp: final_values_def Let_def split: if_splits)
  moreover from assms(4) have "length firm_vals = length firm_path"
    by (auto simp: term_firm_val_def split: if_splits)
  ultimately have len: "length firm_vals = length final_vals"
    using assms(5) by simp
  have nonneg: "\<forall>f\<in>set final_vals. 0 \<le> f"
    using final_values_nonneg [OF assms(3)] by blast
  have "length (amount_lost g firm_vals final_vals) = length final_vals"
    using len by (simp add: amount_lost_def)
  with amount_lost_sums [OF assms(1,2) len nonneg] show ?thesis
    unfolding cva_est_def DFValue_def mean_def
    by (simp add: divide_right_mono)
qed

subsection \<open>The knock-out rule of the two Monte Carlo payoffs\<close>

lemma knock_out_rows_strict:
  "map2 (\<lambda>s row. if Max (set row) > L then 0 else s) (map last path) path
   = map (\<lambda>row. if Max (set row) > L then 0 else last row :: real) path"
  by (induction path) auto

lemma upOutCall_val_rows:
  assumes "[] \<notin> set path"
  shows "upOutCall_val g path
     = Inr (map (\<lambda>row. discounted_value (if Max (set row) > g_L g then 0 else last row)
                    (g_K g) (g_r g) (g_T g)) path)"
  using assms unfolding upOutCall_val_def Let_def knock_out_rows_strict
  by (auto simp: list_ex_iff)

text \<open>
  The two cells agree on every path whose maximum is not the barrier itself.
\<close>

lemma knock_out_rules_agree:
  assumes "[] \<notin> set path" and "\<forall>row\<in>set path. Max (set row) \<noteq> g_L g" and "0 \<le> g_K g"
  shows "\<exists>final_vals. final_values g path = Inr final_vals
           \<and> upOutCall_val g path = Inr (map (\<lambda>f. f * exp (- g_r g * g_T g)) final_vals)"
  using assms
  by (auto simp: final_values_rows upOutCall_val_rows discounted_value_def)

text \<open>
  C2. The payoff of a path is forced to zero exactly when the maximum of the path meets or
  exceeds the barrier, in the Monte Carlo cell of the up-and-out call as in the cell of
  the credit valuation adjustment. The second does so (\<open>final_values_rows\<close>); the first
  compares with \<open>>\<close> (\<open>upOutCall_val_rows\<close>): a path that touches the barrier \<open>L = 150\<close>
  and ends at 120 keeps the payoff \<open>20 e^(-rT)\<close> there, and has payoff 0 in the other
  cell.
\<close>

theorem upOutCall_val_barrier_touched:
  "upOutCall_val notebook_globals [[100, 150, 120]] = Inr [exp (- (8 / 100)) * 20]
   \<and> final_values notebook_globals [[100, 150, 120]] = Inr [0]"
  by (simp add: upOutCall_val_rows final_values_rows notebook_globals_def discounted_value_def)

subsection \<open>The horizon of the simulated paths\<close>

lemma cumprod_from_length: "length (cumprod_from a xs) = length xs"
  by (induction xs arbitrary: a) simp_all

lemma cumprod_from_first: "xs \<noteq> [] \<Longrightarrow> cumprod_from a xs ! 0 = a * xs ! 0"
  by (cases xs) simp_all

lemma cumprod_from_step:
  "Suc k < length xs \<Longrightarrow> cumprod_from a xs ! Suc k = cumprod_from a xs ! k * xs ! Suc k"
proof (induction xs arbitrary: a k)
  case Nil
  then show ?case by simp
next
  case (Cons x xs)
  show ?case
  proof (cases k)
    case 0
    with Cons.prems show ?thesis by (simp add: cumprod_from_first)
  next
    case (Suc k')
    with Cons.prems have "Suc k' < length xs" by simp
    from Cons.IH [OF this, of "a * x"] Suc show ?thesis by simp
  qed
qed

lemma vanillaMC_steps_value: "vanillaMC_steps = 10"
  by (simp add: vanillaMC_steps_def vanillaMC_dt_def)

lemma vanillaMC_path_shape:
  "length (vanillaMC_path randn S N sig r) = N"
  "n < N \<Longrightarrow> length (vanillaMC_path randn S N sig r ! n) = vanillaMC_steps"
  by (simp_all add: vanillaMC_path_def Let_def cumprod_def cumprod_from_length)

text \<open>
  The step of \<open>vanillaMC\<close> is the lognormal one:
  \<open>S\<^bsub>t+dt\<^esub> = S\<^bsub>t\<^esub> exp((r - \<sigma>\<^sup>2/2) dt + \<sigma> \<surd>dt Z)\<close>, with \<open>dt = 0.1\<close>.
\<close>

lemma vanillaMC_path_step:
  assumes "n < N" and "Suc k < vanillaMC_steps"
  shows "vanillaMC_path randn S N sig r ! n ! Suc k
       = vanillaMC_path randn S N sig r ! n ! k
         * exp ((r - sig\<^sup>2 / 2) * vanillaMC_dt + sig * sqrt vanillaMC_dt * randn n (Suc k))"
proof -
  let ?w = "map (\<lambda>k. randn n k * sig * sqrt vanillaMC_dt) [0..<vanillaMC_steps]"
  let ?f = "map (\<lambda>x. exp ((r - sig\<^sup>2 / 2) * vanillaMC_dt + x)) ?w"
  have row: "vanillaMC_path randn S N sig r ! n = map (\<lambda>x. x * S) (cumprod_from 1 ?f)"
    using assms(1) by (simp add: vanillaMC_path_def Let_def cumprod_def)
  have len: "length ?f = vanillaMC_steps" by simp
  from assms(2) have k: "Suc k < length ?f" "k < length ?f" by simp_all
  have "cumprod_from 1 ?f ! Suc k = cumprod_from 1 ?f ! k * ?f ! Suc k"
    using k(1) by (rule cumprod_from_step)
  moreover have "?f ! Suc k
      = exp ((r - sig\<^sup>2 / 2) * vanillaMC_dt + sig * sqrt vanillaMC_dt * randn n (Suc k))"
    using assms(2) by (simp add: mult.commute mult.left_commute)
  ultimately show ?thesis
    using k by (simp add: row cumprod_from_length)
qed

text \<open>
  C8. The path simulator divides \<open>[0, T]\<close> into \<open>numSteps\<close> steps of length
  \<open>T/numSteps\<close>, so that the simulated horizon is the maturity \<open>T\<close> of the caller.
  \<open>vanillaMC\<close> does not: its paths have \<open>int(1/0.1) = 10\<close> steps of length \<open>0.1\<close>
  (\<open>vanillaMC_path_shape\<close>, \<open>vanillaMC_path_step\<close>), a horizon of 1 whatever \<open>T\<close> is, and \<open>T\<close>
  enters the discount factor only. For \<open>T = 2\<close> the time step is not \<open>T/numSteps\<close>, and
  the result is the value for \<open>T = 1\<close> discounted by one more year.
\<close>

theorem vanillaMC_horizon_is_one:
  assumes "0 < N"
  shows "real vanillaMC_steps * vanillaMC_dt = 1
       \<and> vanillaMC_dt \<noteq> 2 / real vanillaMC_steps
       \<and> vanillaMC randn S K 2 N sig r c = exp (- r) * vanillaMC randn S K 1 N sig r c"
proof -
  have "exp (- r * 2) = exp (- r) * exp (- r * 1)"
    by (simp add: exp_add [symmetric])
  then have "vanillaMC randn S K 2 N sig r c = exp (- r) * vanillaMC randn S K 1 N sig r c"
    unfolding vanillaMC_def Let_def by (simp only: mult.assoc if_distrib [of "\<lambda>x. exp (- r) * x"])
  then show ?thesis
    by (simp add: vanillaMC_steps_value vanillaMC_dt_def)
qed

theorem vanillaMC_horizon_is_one_witness:
  "(0::nat) < 1 \<and> real vanillaMC_steps * vanillaMC_dt = 1
   \<and> vanillaMC_dt \<noteq> 2 / real vanillaMC_steps
   \<and> vanillaMC (\<lambda>n k. 0) 100 100 2 1 (2 / 10) (4 / 100) True
       = exp (- (4 / 100)) * vanillaMC (\<lambda>n k. 0) 100 100 1 1 (2 / 10) (4 / 100) True"
  using vanillaMC_horizon_is_one [of 1 "\<lambda>n k. 0" 100 100 "2 / 10" "4 / 100" True] by simp

subsection \<open>The closed form of the up-and-out call\<close>

lemma d1_value: "K \<noteq> 0 \<Longrightarrow> d1 S K r sigma tau = Inr (d1_spec S K r sigma tau)"
  by (simp add: d1_def d1_spec_def)

lemma d2_value: "K \<noteq> 0 \<Longrightarrow> d2 S K r sigma tau = Inr (d2_spec S K r sigma tau)"
  by (simp add: d2_def d2_spec_def d1_value)

lemma rounds_to_zero_0: "rounds_to_zero 0"
  by (simp add: rounds_to_zero_def float_underflow_def)

lemma float_square_value: "\<not> overflows (x\<^sup>2) \<Longrightarrow> float_square x = Inr (x\<^sup>2)"
  by (simp add: float_square_def)

lemma float_pow_value:
  assumes "\<not> rounds_to_zero x" and "\<not> overflows (x powr y)"
  shows "float_pow x y = Inr (x powr y)"
proof -
  from assms(1) have "x \<noteq> 0" using rounds_to_zero_0 by auto
  with assms show ?thesis by (simp add: float_pow_def)
qed

lemma analytical_value_decomposition:
  assumes "no_float_error S0 K L r sigma"
  shows "analytical_value_Call_Up_Out Phi g S0 K L r sigma T
       = Inr (upAndOutCallPrice_spec Phi S0 K L T sigma r
              + (vanillaPrice_call_spec Phi (g_S g) K T sigma r
                 - vanillaPrice_call_spec Phi S0 K T sigma r))"
proof -
  define l where "l = (r + sigma\<^sup>2 / 2) / sigma\<^sup>2"
  from assms have range: "\<not> overflows (sigma\<^sup>2)" "\<not> rounds_to_zero (sigma\<^sup>2)" "\<not> overflows (L\<^sup>2)"
    "\<not> rounds_to_zero (S0 * K)" "\<not> rounds_to_zero (L / S0)"
    "\<not> overflows ((L / S0) powr (2 * l))" "\<not> overflows ((L / S0) powr (2 * l - 2))"
    by (simp_all add: no_float_error_def Let_def l_def)
  from range(4) have "S0 * K \<noteq> 0" using rounds_to_zero_0 by auto
  then have nz: "S0 \<noteq> 0" "K \<noteq> 0" by simp_all
  from range(5) have "L / S0 \<noteq> 0" using rounds_to_zero_0 by auto
  then have L: "L \<noteq> 0" by simp
  have pows: "float_pow (L / S0) (2 * l) = Inr ((L / S0) powr (2 * l))"
    "float_pow (L / S0) (2 * l - 2) = Inr ((L / S0) powr (2 * l - 2))"
    using range(5,6,7) by (simp_all add: float_pow_value)
  show ?thesis
    unfolding analytical_value_Call_Up_Out_def
    by (simp add: float_square_value range Let_def nz L d1_value d2_value l_def [symmetric] pows
        upAndOutCallPrice_spec_def vanillaPrice_call_spec_def)
qed


lemma analytical_value_when_S_is_S0:
  assumes "no_float_error S0 K L r sigma" and "g_S g = S0"
  shows "analytical_value_Call_Up_Out Phi g S0 K L r sigma T
       = Inr (upAndOutCallPrice_spec Phi S0 K L T sigma r)"
  by (simp add: analytical_value_decomposition [OF assms(1)] assms(2))

lemma no_float_error_C1: "no_float_error 1 1 2 0 1"
  by (simp add: no_float_error_def Let_def overflows_def rounds_to_zero_def float_overflow_def
        float_underflow_def powr_minus_divide)

lemma vanilla_call_small:
  assumes "\<forall>x. 0 < Phi x" and "\<forall>x. Phi x < 1"
  shows "vanillaPrice_call_spec Phi 1 1 1 1 0 < 1"
proof -
  have "Phi (d1_spec 1 1 0 1 1) < 1" and "0 < Phi (d2_spec 1 1 0 1 1)"
    using assms by simp_all
  then show ?thesis
    by (simp add: vanillaPrice_call_spec_def)
qed

lemma vanilla_call_large:
  assumes "mono Phi" and "Phi 0 = 1 / 2"
  shows "99 / 2 \<le> vanillaPrice_call_spec Phi 100 1 1 1 0"
proof -
  have pos: "0 \<le> d1_spec 100 1 0 1 1"
    by (simp add: d1_spec_def)
  have "d2_spec 100 1 0 1 1 \<le> d1_spec 100 1 0 1 1"
    by (simp add: d2_spec_def)
  with assms(1) have le: "Phi (d2_spec 100 1 0 1 1) \<le> Phi (d1_spec 100 1 0 1 1)"
    by (rule monoD)
  from assms(1) pos have "Phi 0 \<le> Phi (d1_spec 100 1 0 1 1)"
    by (rule monoD)
  with assms(2) have "1 / 2 \<le> Phi (d1_spec 100 1 0 1 1)" by simp
  with le show ?thesis
    by (simp add: vanillaPrice_call_spec_def)
qed

text \<open>
  C1. For valid inputs \<open>analytical_value_Call_Up_Out\<close> equals the closed form stated in
  the parameter \<open>S0\<close> throughout, and depends on its arguments only. The code departs
  from this: its first two terms read the module-level \<open>S\<close>, so that the result is the
  closed form plus the difference of the vanilla call values at \<open>S\<close> and at \<open>S0\<close>
  (\<open>analytical_value_decomposition\<close>), and it agrees with the closed form when \<open>S\<close>
  equals \<open>S0\<close> (\<open>analytical_value_when_S_is_S0\<close>). With the notebook's \<open>S = 100\<close>, at
  \<open>S0 = 1\<close>, \<open>K = 1\<close>, \<open>L = 2\<close>, \<open>r = 0\<close>, \<open>sigma = 1\<close>, \<open>T = 1\<close> the two differ, for
  every distribution function that is monotone, takes the value \<open>1/2\<close> at 0 and lies
  strictly between 0 and 1, as the normal distribution function does.
\<close>

theorem analytical_value_reads_global_S:
  assumes "mono Phi" and "Phi 0 = 1 / 2" and "\<forall>x. 0 < Phi x" and "\<forall>x. Phi x < 1"
  shows "g_S notebook_globals = 100
       \<and> analytical_value_Call_Up_Out Phi notebook_globals 1 1 2 0 1 1
           \<noteq> Inr (upAndOutCallPrice_spec Phi 1 1 2 1 1 0)"
proof -
  have S: "g_S notebook_globals = 100"
    by (simp add: notebook_globals_def)
  have "vanillaPrice_call_spec Phi 1 1 1 1 0 < vanillaPrice_call_spec Phi 100 1 1 1 0"
    using vanilla_call_small [OF assms(3,4)] vanilla_call_large [OF assms(1,2)] by simp
  then show ?thesis
    by (simp add: analytical_value_decomposition [OF no_float_error_C1] S)
qed

theorem analytical_value_reads_global_S_witness:
  "sigmoid 0 = 1 / 2
   \<and> analytical_value_Call_Up_Out sigmoid notebook_globals 1 1 2 0 1 1
       \<noteq> Inr (upAndOutCallPrice_spec sigmoid 1 1 2 1 1 0)"
  using analytical_value_reads_global_S [of sigmoid] sigmoid_mono sigmoid_pos sigmoid_less_one
  by (simp add: sigmoid_zero)


text \<open>
  The errors of the float range: a power of \<open>L/S0\<close> that overflows (\<open>0.5 ** -3999\<close>), a
  \<open>sigma**2\<close> that underflows to \<open>0.0\<close> and is then a divisor, a \<open>sigma**2\<close> that
  overflows.
\<close>

lemma analytical_value_power_overflows:
  "analytical_value_Call_Up_Out Phi g 100 100 50 (- (5 / 100)) (5 / 1000) 1 = Inl OverflowError"
  by (simp add: analytical_value_Call_Up_Out_def float_square_def float_pow_def Let_def
        overflows_def rounds_to_zero_def float_overflow_def float_underflow_def
        d1_value d2_value power2_eq_square powr_neg_numeral power_one_over)

lemma analytical_value_square_underflows:
  "analytical_value_Call_Up_Out Phi g 100 100 150 (8 / 100) (1 / 10 ^ 200) 1 = Inl ZeroDivisionError"
  by (simp add: analytical_value_Call_Up_Out_def float_square_def Let_def
        overflows_def rounds_to_zero_def float_overflow_def float_underflow_def power_one_over
        power_divide)

lemma analytical_value_square_overflows:
  "analytical_value_Call_Up_Out Phi g 100 100 150 (8 / 100) (10 ^ 200) 1 = Inl OverflowError"
  by (simp add: analytical_value_Call_Up_Out_def float_square_def Let_def
        overflows_def float_overflow_def)

lemma no_float_error_C9: "no_float_error 100 100 90 (8 / 100) (3 / 10)"
proof -
  have "(90 / 100 :: real) powr a \<le> 1" if "0 \<le> a" for a
    using that by (intro powr_le1) simp_all
  then have "(90 / 100 :: real) powr (2 * ((8 / 100 + (3 / 10)\<^sup>2 / 2) / (3 / 10)\<^sup>2)) \<le> 1"
    and "(90 / 100 :: real) powr (2 * ((8 / 100 + (3 / 10)\<^sup>2 / 2) / (3 / 10)\<^sup>2) - 2) \<le> 1"
    by (simp_all add: power2_eq_square)
  then show ?thesis
    by (simp add: no_float_error_def Let_def overflows_def rounds_to_zero_def float_overflow_def
        float_underflow_def power2_eq_square)
qed

lemma moderate_bounds:
  assumes "moderate x"
  shows "0 < x" and "1 / 2 ^ 250 \<le> x" and "x \<le> 2 ^ 250"
proof -
  from assms show "1 / 2 ^ 250 \<le> x" and "x \<le> 2 ^ 250"
    by (simp_all add: moderate_def)
  have "(0::real) < 1 / 2 ^ 250" by simp
  with \<open>1 / 2 ^ 250 \<le> x\<close> show "0 < x" by linarith
qed

lemma moderate_product:
  assumes "moderate x" and "moderate y"
  shows "1 / 2 ^ 500 \<le> x * y" and "x * y \<le> 2 ^ 500"
proof -
  note x = moderate_bounds [OF assms(1)] and y = moderate_bounds [OF assms(2)]
  have "(1 / 2 ^ 250) * (1 / 2 ^ 250) \<le> x * y"
    using x(2) y(2) by (intro mult_mono) simp_all
  then show "1 / 2 ^ 500 \<le> x * y" by simp
  have "x * y \<le> 2 ^ 250 * 2 ^ 250"
    using x y by (intro mult_mono) simp_all
  then show "x * y \<le> 2 ^ 500" by simp
qed

lemma moderate_quotient:
  assumes "moderate x" and "moderate y"
  shows "1 / 2 ^ 500 \<le> x / y" and "x / y \<le> 2 ^ 500"
proof -
  note x = moderate_bounds [OF assms(1)] and y = moderate_bounds [OF assms(2)]
  have inv: "1 / 2 ^ 250 \<le> 1 / y" "1 / y \<le> 2 ^ 250"
    using y by (simp_all add: field_simps)
  have "(1 / 2 ^ 250) * (1 / 2 ^ 250) \<le> x * (1 / y)"
    using x(2) inv(1) by (intro mult_mono) simp_all
  then show "1 / 2 ^ 500 \<le> x / y" by simp
  have "x * (1 / y) \<le> 2 ^ 250 * 2 ^ 250"
    using x y inv by (intro mult_mono) simp_all
  then show "x / y \<le> 2 ^ 500" by simp
qed

lemma in_range_500:
  fixes x :: real
  assumes "1 / 2 ^ 500 \<le> x" and "x \<le> 2 ^ 1000"
  shows "\<not> overflows x" and "\<not> rounds_to_zero x"
proof -
  have "(0::real) < 1 / 2 ^ 500" by simp
  with assms(1) have "0 < x" by linarith
  moreover have "(2::real) ^ 1000 < 2 ^ 1024 - 2 ^ 970" by simp
  moreover have "(1::real) / 2 ^ 1075 < 1 / 2 ^ 500" by simp
  ultimately show "\<not> overflows x" and "\<not> rounds_to_zero x"
    using assms by (simp_all add: overflows_def rounds_to_zero_def float_overflow_def
        float_underflow_def)
qed

lemma no_float_error_moderate:
  assumes "moderate S0" and "moderate K" and "moderate L" and "moderate sigma"
    and "L \<le> S0" and "- (sigma\<^sup>2 / 2) \<le> r"
  shows "no_float_error S0 K L r sigma"
proof -
  define l where "l = (r + sigma\<^sup>2 / 2) / sigma\<^sup>2"
  define b where "b = L / S0"
  note S0 = moderate_bounds [OF assms(1)] and L = moderate_bounds [OF assms(3)]
    and sg = moderate_bounds [OF assms(4)]
  have sq: "1 / 2 ^ 500 \<le> sigma\<^sup>2" "sigma\<^sup>2 \<le> 2 ^ 500"
    using moderate_product [OF assms(4) assms(4)] by (simp_all add: power2_eq_square)
  have Lsq: "1 / 2 ^ 500 \<le> L\<^sup>2" "L\<^sup>2 \<le> 2 ^ 500"
    using moderate_product [OF assms(3) assms(3)] by (simp_all add: power2_eq_square)
  have SK: "1 / 2 ^ 500 \<le> S0 * K" "S0 * K \<le> 2 ^ 500"
    using moderate_product [OF assms(1) assms(2)] by simp_all
  have b: "1 / 2 ^ 500 \<le> b" "0 < b" "b \<le> 1"
    using moderate_quotient [OF assms(3) assms(1)] S0 L assms(5) by (simp_all add: b_def)
  have l: "0 \<le> l"
    using assms(6) sg(1) by (simp add: l_def)
  have p1: "b powr (2 * l) \<le> 1"
    using l b by (intro powr_le1) simp_all
  have "b powr (2 * l - 2) \<le> b powr (- 2)"
    using l b by (intro powr_mono') simp_all
  also have "b powr (- 2) = 1 / b\<^sup>2"
    using b(2) by (simp add: powr_minus_divide)
  also have "\<dots> = (S0 / L)\<^sup>2"
    by (simp add: b_def power_divide)
  also have "\<dots> \<le> (2 ^ 500)\<^sup>2"
    using moderate_quotient [OF assms(1) assms(3)] S0 L by (intro power_mono) simp_all
  finally have p2: "b powr (2 * l - 2) \<le> 2 ^ 1000" by simp
  have big: "(1::real) < 2 ^ 1024 - 2 ^ 970" "(2::real) ^ 1000 < 2 ^ 1024 - 2 ^ 970" by simp_all
  have ovf1: "\<not> overflows (b powr (2 * l))"
    using p1 big(1) by (simp add: overflows_def float_overflow_def)
  have ovf2: "\<not> overflows (b powr (2 * l - 2))"
    using p2 big(2) by (simp add: overflows_def float_overflow_def)
  have le: "(2::real) ^ 500 \<le> 2 ^ 1000" by simp
  have "b \<le> 2 ^ 1000"
    using b(3) by (rule order_trans) simp
  note r_sigma = in_range_500 [OF sq(1) order_trans [OF sq(2) le]]
    and r_L = in_range_500 [OF Lsq(1) order_trans [OF Lsq(2) le]]
    and r_SK = in_range_500 [OF SK(1) order_trans [OF SK(2) le]]
    and r_b = in_range_500 [OF b(1) \<open>b \<le> 2 ^ 1000\<close>]
  show ?thesis
    unfolding no_float_error_def Let_def l_def [symmetric] b_def [symmetric]
    using r_sigma r_L(1) r_SK(2) r_b(2) ovf1 ovf2 by blast
qed

text \<open>
  C9. With a barrier at or below the spot, \<open>L \<le> S0\<close>, the pricer is to fail with an
  invalid-parameter error instead of returning a number. The code has no validation of
  the barrier: for every input with \<open>L \<le> S0\<close> whose \<open>S0\<close>, \<open>K\<close>, \<open>L\<close> and \<open>sigma\<close> lie
  between \<open>2^-250\<close> and \<open>2^250\<close>, with \<open>T > 0\<close>, a positive module-level \<open>S\<close> and
  \<open>r \<ge> -sigma\<^sup>2/2\<close> (that is \<open>\<lambda> \<ge> 0\<close>; every \<open>r \<ge> 0\<close> qualifies), it raises nothing and
  returns a number. The bounds keep the squares, the product \<open>S0*K\<close> and the two powers
  of \<open>L/S0\<close> inside the float range; outside it the function raises
  (\<open>analytical_value_power_overflows\<close>, \<open>analytical_value_square_underflows\<close>,
  \<open>analytical_value_square_overflows\<close>).
\<close>

theorem analytical_value_no_validation:
  assumes "L \<le> S0"
    and "moderate S0" and "moderate K" and "moderate L" and "moderate sigma"
    and "0 < T" and "0 < g_S g" and "- (sigma\<^sup>2 / 2) \<le> r"
  shows "\<exists>v. analytical_value_Call_Up_Out Phi g S0 K L r sigma T = Inr v"
  using analytical_value_decomposition [OF no_float_error_moderate [OF assms(2-5) assms(1) assms(8)]]
  by blast

theorem analytical_value_no_validation_witness:
  "(90::real) \<le> 100 \<and> moderate 100 \<and> moderate 90 \<and> moderate (3 / 10)
   \<and> g_S notebook_globals = 100
   \<and> (\<exists>v. analytical_value_Call_Up_Out sigmoid notebook_globals 100 100 90 (8 / 100) (3 / 10) 1
            = Inr v)"
  using analytical_value_no_validation [of 90 100 100 "3 / 10" 1 notebook_globals "8 / 100" sigmoid]
  by (simp add: notebook_globals_def moderate_def power2_eq_square)

theorem analytical_value_barrier_below_spot:
  "\<not> isl (analytical_value_Call_Up_Out sigmoid notebook_globals 100 100 90 (8 / 100) (3 / 10) 1)"
  unfolding analytical_value_decomposition [OF no_float_error_C9] by simp

subsection \<open>The analytical cross-check of the credit valuation adjustment\<close>

lemma C_value: "g_K g \<noteq> 0 \<Longrightarrow>
    C Phi g = Inr (vanillaPrice_call_spec Phi (g_S g) (g_K g) (g_T g) (g_sigma g) (g_r g))"
  by (simp add: C_def vanillaPrice_call_spec_def d1_value d2_value)

lemma uncorr_cva_value:
  assumes "g_K g \<noteq> 0" and "g_debt g \<noteq> 0"
  shows "uncorr_cva Phi g
       = Inr (uncorrelatedCVA_spec Phi (g_recovery g) (g_V g) (g_debt g) (g_r g) (g_sigma g) (g_T g)
                (g_S g) (g_K g) (g_sigma g))"
  using assms
  by (simp add: uncorr_cva_def default_prob_def uncorrelatedCVA_spec_def C_value d2_value)

lemma notebook_call_positive:
  assumes "strict_mono Phi" and "\<forall>x. 0 < Phi x"
  shows "0 < vanillaPrice_call_spec Phi 100 100 1 (3 / 10) (8 / 100)"
proof -
  let ?a = "d1_spec 100 100 (8 / 100) (3 / 10) 1" and ?b = "d2_spec 100 100 (8 / 100) (3 / 10) 1"
  have "?b < ?a" by (simp add: d2_spec_def)
  with assms(1) have lt: "Phi ?b < Phi ?a" by (rule strict_monoD)
  have pos: "0 < Phi ?b" using assms(2) by simp
  have "exp (- (8 / 100 * 1)) < (1::real)" by simp
  then have "exp (- (8 / 100 * 1)) * Phi ?b < 1 * Phi ?b"
    using pos by (rule mult_strict_right_mono)
  with lt have "exp (- (8 / 100 * 1)) * Phi ?b < Phi ?a" by simp
  then show ?thesis
    by (simp add: vanillaPrice_call_spec_def)
qed

lemma notebook_d2_differ:
  "d2_spec 200 175 (8 / 100) (3 / 10) 1 < d2_spec 200 175 (8 / 100) (25 / 100) 1"
proof -
  have gen: "0 < a \<Longrightarrow>
      (a + (8 / 100 + (3 / 10)\<^sup>2 / 2) * 1) / (3 / 10 * sqrt 1) - 3 / 10 * sqrt 1
      < (a + (8 / 100 + (25 / 100)\<^sup>2 / 2) * 1) / (25 / 100 * sqrt 1) - 25 / 100 * sqrt 1"
    for a :: real
    by (simp add: field_simps power2_eq_square)
  have "0 < ln (200 / 175 :: real)" by simp
  from gen [OF this] show ?thesis
    unfolding d2_spec_def d1_spec_def .
qed

text \<open>
  C7. The analytical cross-check is \<open>(1 - recoveryRate) \<Phi>(-d2(V0, D, r, \<sigma>_firm, T))\<close>
  times the vanilla call value, with \<open>\<sigma>_firm\<close> the volatility of the firm value. The
  code passes \<open>sigma\<close>, the volatility of the share price, to \<open>d2\<close>
  (\<open>uncorr_cva_value\<close>); \<open>sigma2\<close>, the volatility that the simulation of the firm value
  uses, is not read. With the notebook's variables (\<open>sigma = 0.3\<close>, \<open>sigma2 = 0.25\<close>) the
  result differs from the value at \<open>sigma2\<close>, for every strictly increasing, positive
  distribution function.
\<close>

theorem uncorr_cva_uses_share_volatility:
  assumes "strict_mono Phi" and "\<forall>x. 0 < Phi x"
  shows "uncorr_cva Phi notebook_globals
           = Inr (uncorrelatedCVA_spec Phi (25 / 100) 200 175 (8 / 100)
                    (g_sigma notebook_globals) 1 100 100 (3 / 10))
       \<and> uncorr_cva Phi notebook_globals
           \<noteq> Inr (uncorrelatedCVA_spec Phi (25 / 100) 200 175 (8 / 100)
                    (g_sigma2 notebook_globals) 1 100 100 (3 / 10))"
proof -
  have code: "uncorr_cva Phi notebook_globals
           = Inr (uncorrelatedCVA_spec Phi (25 / 100) 200 175 (8 / 100) (3 / 10) 1 100 100 (3 / 10))"
    using uncorr_cva_value [of notebook_globals Phi] by (simp add: notebook_globals_def)
  from notebook_d2_differ
  have "- d2_spec 200 175 (8 / 100) (25 / 100) 1 < - d2_spec 200 175 (8 / 100) (3 / 10) 1"
    by simp
  with assms(1)
  have "Phi (- d2_spec 200 175 (8 / 100) (25 / 100) 1) < Phi (- d2_spec 200 175 (8 / 100) (3 / 10) 1)"
    by (rule strict_monoD)
  then have "uncorrelatedCVA_spec Phi (25 / 100) 200 175 (8 / 100) (3 / 10) 1 100 100 (3 / 10)
      \<noteq> uncorrelatedCVA_spec Phi (25 / 100) 200 175 (8 / 100) (25 / 100) 1 100 100 (3 / 10)"
    using notebook_call_positive [OF assms] by (simp add: uncorrelatedCVA_spec_def)
  with code show ?thesis
    by (simp add: notebook_globals_def)
qed

theorem uncorr_cva_uses_share_volatility_witness:
  "strict_mono sigmoid
   \<and> uncorr_cva sigmoid notebook_globals
       = Inr (uncorrelatedCVA_spec sigmoid (25 / 100) 200 175 (8 / 100)
                (g_sigma notebook_globals) 1 100 100 (3 / 10))
   \<and> uncorr_cva sigmoid notebook_globals
       \<noteq> Inr (uncorrelatedCVA_spec sigmoid (25 / 100) 200 175 (8 / 100)
                (g_sigma2 notebook_globals) 1 100 100 (3 / 10))"
  using uncorr_cva_uses_share_volatility [of sigmoid] sigmoid_strict_mono sigmoid_pos
  by blast


end
